theory Spec2Isabelle
  imports Complex_Main "HOL-Library.AList" "HOL-Library.Char_ord"
begin

section \<open>Python strings\<close>

text \<open>
  A Python \<open>str\<close> is modelled as a \<open>string\<close>: a list of characters with code points
  0 to 255. The character classes below are Python's on that range.
\<close>

definition isspace :: "char \<Rightarrow> bool" where
  \<comment> \<open>the characters \<open>str.strip()\<close> removes: tab, newline, vertical tab, form feed,
      carriage return, the separators 0x1C to 0x1F, space, NEL and the no-break space\<close>
  "isspace c = (c \<in> set [CHR 0x09, CHR 0x0A, CHR 0x0B, CHR 0x0C, CHR 0x0D,
                          CHR 0x1C, CHR 0x1D, CHR 0x1E, CHR 0x1F, CHR 0x20, CHR 0x85, CHR 0xA0])"

definition py_strip :: "string \<Rightarrow> string" where
  \<comment> \<open>\<open>s.strip()\<close>\<close>
  "py_strip s = rev (dropWhile isspace (rev (dropWhile isspace s)))"

definition lower_char :: "char \<Rightarrow> char" where
  "lower_char c =
     (if (CHR ''A'' \<le> c \<and> c \<le> CHR ''Z'') \<or> (CHR 0xC0 \<le> c \<and> c \<le> CHR 0xDE \<and> c \<noteq> CHR 0xD7)
      then char_of (of_char c + (32::nat)) else c)"

definition py_lower :: "string \<Rightarrow> string" where
  \<comment> \<open>\<open>s.lower()\<close>\<close>
  "py_lower s = map lower_char s"

fun py_split :: "char \<Rightarrow> string \<Rightarrow> string list" where
  \<comment> \<open>\<open>s.split(sep)\<close> for a one-character separator: every occurrence separates, so
      two separators in a row give an empty segment\<close>
  "py_split sep [] = [[]]"
| "py_split sep (x # xs) =
     (if x = sep then [] # py_split sep xs
      else (case py_split sep xs of w # ws \<Rightarrow> (x # w) # ws | [] \<Rightarrow> [[x]]))"

definition is_decimal :: "char \<Rightarrow> bool" where
  \<comment> \<open>the class \<open>\d\<close> of \<open>re\<close>\<close>
  "is_decimal c = (CHR ''0'' \<le> c \<and> c \<le> CHR ''9'')"

definition py_isdigit :: "string \<Rightarrow> bool" where
  \<comment> \<open>\<open>s.isdigit()\<close>: non-empty, and every character a digit; the superscripts
      one, two and three are digits to \<open>isdigit\<close>, though not to \<open>\d\<close>\<close>
  "py_isdigit s = (s \<noteq> [] \<and> list_all (\<lambda>c. is_decimal c \<or> c = CHR 0xB2 \<or> c = CHR 0xB3 \<or> c = CHR 0xB9) s)"

definition re_sub_nondigits :: "string \<Rightarrow> string" where
  \<comment> \<open>\<open>re.sub(r'\D', '', s)\<close>: every character outside \<open>\d\<close> is deleted\<close>
  "re_sub_nondigits s = filter is_decimal s"

section \<open>Regular expressions\<close>

datatype citem = Rng char char | Chr char

fun in_item :: "citem \<Rightarrow> char \<Rightarrow> bool" where
  "in_item (Rng a b) c = (a \<le> c \<and> c \<le> b)"
| "in_item (Chr a) c = (c = a)"

datatype regex =
    Nothing
  | Empty
  | Lit char
  | Class "citem list"
  | Alt regex regex
  | Cat regex regex
  | Star regex

fun nullable :: "regex \<Rightarrow> bool" where
  "nullable Nothing = False"
| "nullable Empty = True"
| "nullable (Lit c) = False"
| "nullable (Class cs) = False"
| "nullable (Alt r s) = (nullable r \<or> nullable s)"
| "nullable (Cat r s) = (nullable r \<and> nullable s)"
| "nullable (Star r) = True"

fun deriv :: "char \<Rightarrow> regex \<Rightarrow> regex" where
  "deriv c Nothing = Nothing"
| "deriv c Empty = Nothing"
| "deriv c (Lit d) = (if c = d then Empty else Nothing)"
| "deriv c (Class cs) = (if list_ex (\<lambda>i. in_item i c) cs then Empty else Nothing)"
| "deriv c (Alt r s) = Alt (deriv c r) (deriv c s)"
| "deriv c (Cat r s) =
     (if nullable r then Alt (Cat (deriv c r) s) (deriv c s) else Cat (deriv c r) s)"
| "deriv c (Star r) = Cat (deriv c r) (Star r)"

fun matches :: "regex \<Rightarrow> string \<Rightarrow> bool" where
  \<comment> \<open>the whole string is a word of the expression\<close>
  "matches r [] = nullable r"
| "matches r (c # cs) = matches (deriv c r) cs"

definition plus :: "regex \<Rightarrow> regex" where
  \<comment> \<open>\<open>r+\<close>\<close>
  "plus r = Cat r (Star r)"

fun at_least :: "nat \<Rightarrow> regex \<Rightarrow> regex" where
  \<comment> \<open>\<open>r{n,}\<close>\<close>
  "at_least 0 r = Star r"
| "at_least (Suc n) r = Cat r (at_least n r)"

definition re_match :: "regex \<Rightarrow> string \<Rightarrow> bool" where
  \<comment> \<open>\<open>re.match('^r$', s)\<close>: \<open>$\<close> stands at the end of the string, and also just
      before a newline that ends it\<close>
  "re_match r s = (matches r s \<or> (s \<noteq> [] \<and> last s = CHR 0x0A \<and> matches r (butlast s)))"

definition email_pattern :: regex where
  \<comment> \<open>\<open>^[a-zA-Z0-9._%+-]+@[a-zA-Z0-9.-]+\.[a-zA-Z]{2,}$\<close>, between its anchors\<close>
  "email_pattern =
     Cat (plus (Class [Rng CHR ''a'' CHR ''z'', Rng CHR ''A'' CHR ''Z'', Rng CHR ''0'' CHR ''9'',
                       Chr CHR ''.'', Chr CHR ''_'', Chr CHR ''%'', Chr CHR ''+'', Chr CHR ''-'']))
    (Cat (Lit CHR ''@'')
    (Cat (plus (Class [Rng CHR ''a'' CHR ''z'', Rng CHR ''A'' CHR ''Z'', Rng CHR ''0'' CHR ''9'',
                       Chr CHR ''.'', Chr CHR ''-'']))
    (Cat (Lit CHR ''.'')
         (at_least 2 (Class [Rng CHR ''a'' CHR ''z'', Rng CHR ''A'' CHR ''Z''])))))"

section \<open>Python values and the operations on them\<close>

datatype pyfloat = Finite real | PosInf | NegInf | NaN

text \<open>
  The values the handlers meet: what \<open>request.get_json()\<close> returns, the documents of
  the store, and what \<open>jsonify\<close> is given. A dict is kept as an association list in
  insertion order; the first entry of a key is the one that counts.
\<close>

datatype pyval =
    VNone
  | VBool bool
  | VInt int
  | VFloat pyfloat
  | VStr string
  | VList "pyval list"
  | VDict "(string \<times> pyval) list"
  | VDatetime int
  | VObjectId string

type_synonym doc = "(string \<times> pyval) list"

datatype exn =
    AttributeError
  | TypeError
  | ValueError
  | KeyError
  | IndexError
  | InvalidId
  | DuplicateKeyError
  | BadRequest
  | OverflowError
  | ExpiredSignatureError
  | InvalidTokenError

definition bind_exn :: "exn + 'a \<Rightarrow> ('a \<Rightarrow> exn + 'b) \<Rightarrow> exn + 'b" where
  \<comment> \<open>one statement after another: an exception of the first ends the block\<close>
  "bind_exn m f = (case m of Inl e \<Rightarrow> Inl e | Inr v \<Rightarrow> f v)"

fun truthy :: "pyval \<Rightarrow> bool" where
  \<comment> \<open>\<open>bool(v)\<close>; \<open>not v\<close> is its negation\<close>
  "truthy VNone = False"
| "truthy (VBool b) = b"
| "truthy (VInt n) = (n \<noteq> 0)"
| "truthy (VFloat f) = (f \<noteq> Finite 0)"
| "truthy (VStr s) = (s \<noteq> [])"
| "truthy (VList xs) = (xs \<noteq> [])"
| "truthy (VDict kvs) = (kvs \<noteq> [])"
| "truthy (VDatetime t) = True"
| "truthy (VObjectId i) = True"

fun number_of :: "pyval \<Rightarrow> pyfloat option" where
  \<comment> \<open>the number a value is, for comparison: \<open>True\<close> is 1 and \<open>False\<close> is 0\<close>
  "number_of (VBool b) = Some (Finite (if b then 1 else 0))"
| "number_of (VInt n) = Some (Finite (of_int n))"
| "number_of (VFloat f) = Some f"
| "number_of _ = None"

fun py_eq :: "pyval \<Rightarrow> pyval \<Rightarrow> bool" where
  \<comment> \<open>\<open>x == y\<close>: numbers by value (NaN equals nothing), lists element by element, dicts
      key by key whatever their order, everything else by identity of type and content\<close>
  "py_eq (VList xs) (VList ys) = list_all2 py_eq xs ys"
| "py_eq (VDict a) (VDict b) =
     (set (map fst a) = set (map fst b) \<and>
      list_all (\<lambda>(k, x). map_of a k \<noteq> Some x \<or>
                  (case map_of b k of Some y \<Rightarrow> py_eq x y | None \<Rightarrow> False)) a)"
| "py_eq x y =
     (case (number_of x, number_of y) of
        (Some f, Some g) \<Rightarrow> f = g \<and> f \<noteq> NaN
      | (None, None) \<Rightarrow> x = y
      | _ \<Rightarrow> False)"

fun py_get :: "pyval \<Rightarrow> string \<Rightarrow> pyval \<Rightarrow> exn + pyval" where
  \<comment> \<open>\<open>data.get(key, default)\<close>: only a dict has \<open>get\<close>\<close>
  "py_get (VDict kvs) k d = Inr (case map_of kvs k of None \<Rightarrow> d | Some v \<Rightarrow> v)"
| "py_get _ k d = Inl AttributeError"

fun py_item :: "pyval \<Rightarrow> string \<Rightarrow> exn + pyval" where
  \<comment> \<open>\<open>data[key]\<close> with a string key\<close>
  "py_item (VDict kvs) k = (case map_of kvs k of None \<Rightarrow> Inl KeyError | Some v \<Rightarrow> Inr v)"
| "py_item _ k = Inl TypeError"

fun py_contains :: "pyval \<Rightarrow> string \<Rightarrow> exn + bool" where
  \<comment> \<open>\<open>key in data\<close> with a string key\<close>
  "py_contains (VDict kvs) k = Inr (map_of kvs k \<noteq> None)"
| "py_contains (VList xs) k = Inr (VStr k \<in> set xs)"
| "py_contains (VStr s) k = Inr (list_ex (\<lambda>i. take (length k) (drop i s) = k) [0..<Suc (length s)])"
| "py_contains _ k = Inl TypeError"

fun str_strip :: "pyval \<Rightarrow> exn + string" where
  \<comment> \<open>\<open>v.strip()\<close>: only a string has \<open>strip\<close>\<close>
  "str_strip (VStr s) = Inr (py_strip s)"
| "str_strip _ = Inl AttributeError"

fun py_len :: "pyval \<Rightarrow> exn + nat" where
  \<comment> \<open>\<open>len(v)\<close>\<close>
  "py_len (VStr s) = Inr (length s)"
| "py_len (VList xs) = Inr (length xs)"
| "py_len (VDict kvs) = Inr (length (remdups (map fst kvs)))"
| "py_len _ = Inl TypeError"

type_synonym errors = "(string \<times> string) list"

definition dict_set :: "('k \<times> 'v) list \<Rightarrow> 'k \<Rightarrow> 'v \<Rightarrow> ('k \<times> 'v) list" where
  \<comment> \<open>\<open>d[k] = v\<close> on a dict kept in insertion order\<close>
  "dict_set d k v = AList.update k v d"

section \<open>Input validation\<close>

text \<open>
  Each validator runs its blocks in the order of the source; a block reads its field with
  \<open>data.get(field, '')\<close>, and the step below is the rest of the block: it takes the value
  read and the errors so far.
\<close>

definition name_step :: "pyval \<Rightarrow> errors \<Rightarrow> exn + errors" where
  \<comment> \<open>\<open>validate_auth_data\<close>, the block of \<open>name\<close>\<close>
  "name_step v errors =
     bind_exn (str_strip v) (\<lambda>name.
       Inr (if name = [] then dict_set errors ''name'' ''Name is required''
            else if length name < 2
            then dict_set errors ''name'' ''Name must be at least 2 characters long''
            else errors))"

definition full_name_step :: "pyval \<Rightarrow> errors \<Rightarrow> exn + errors" where
  \<comment> \<open>\<open>validate_registration_data\<close>, the block of \<open>fullName\<close>\<close>
  "full_name_step v errors =
     bind_exn (str_strip v) (\<lambda>full_name.
       Inr (if full_name = [] then dict_set errors ''fullName'' ''Full Name is required''
            else if length full_name < 2
            then dict_set errors ''fullName'' ''Full Name must be at least 2 characters long''
            else errors))"

definition email_step :: "pyval \<Rightarrow> errors \<Rightarrow> exn + errors" where
  \<comment> \<open>the block of \<open>email\<close>, the same in both validators\<close>
  "email_step v errors =
     bind_exn (str_strip v) (\<lambda>stripped.
       let email = py_lower stripped in
       Inr (if email = [] then dict_set errors ''email'' ''Email is required''
            else if \<not> re_match email_pattern email
            then dict_set errors ''email'' ''Must be a valid email format''
            else errors))"

definition phone_step :: "pyval \<Rightarrow> errors \<Rightarrow> exn + errors" where
  \<comment> \<open>\<open>validate_registration_data\<close>, the block of \<open>phone\<close>\<close>
  "phone_step v errors =
     bind_exn (str_strip v) (\<lambda>phone.
       let phone_digits = re_sub_nondigits phone in
       Inr (if phone = [] then dict_set errors ''phone'' ''Phone number is required''
            else if length phone_digits < 10 \<or> length phone_digits > 15
            then dict_set errors ''phone'' ''Phone must contain 10 to 15 digits only''
            else if \<not> py_isdigit phone_digits
            then dict_set errors ''phone'' ''Phone must contain digits only''
            else errors))"

definition password_step :: "pyval \<Rightarrow> errors \<Rightarrow> exn + errors" where
  \<comment> \<open>the block of \<open>password\<close>, the same in both validators: the value is not stripped\<close>
  "password_step password errors =
     (if \<not> truthy password
      then Inr (dict_set errors ''password'' ''Password is required'')
      else bind_exn (py_len password) (\<lambda>n.
        Inr (if n < 6
             then dict_set errors ''password'' ''Password must be at least 6 characters long''
             else errors)))"

definition confirm_password_step :: "pyval \<Rightarrow> pyval \<Rightarrow> errors \<Rightarrow> errors" where
  \<comment> \<open>\<open>validate_registration_data\<close>, the block of \<open>confirmPassword\<close>\<close>
  "confirm_password_step password confirm_password errors =
     (if \<not> truthy confirm_password
      then dict_set errors ''confirmPassword'' ''Confirm Password is required''
      else if \<not> py_eq password confirm_password
      then dict_set errors ''confirmPassword'' ''Passwords do not match''
      else errors)"

definition validate_auth_data :: "pyval \<Rightarrow> bool \<Rightarrow> exn + errors" where
  "validate_auth_data data is_login =
     bind_exn (if \<not> is_login
               then bind_exn (py_get data ''name'' (VStr [])) (\<lambda>v. name_step v [])
               else Inr []) (\<lambda>errors.
     bind_exn (py_get data ''email'' (VStr [])) (\<lambda>v.
     bind_exn (email_step v errors) (\<lambda>errors.
     bind_exn (py_get data ''password'' (VStr [])) (\<lambda>password.
     password_step password errors))))"

definition validate_registration_data :: "pyval \<Rightarrow> exn + errors" where
  "validate_registration_data data =
     bind_exn (py_get data ''fullName'' (VStr [])) (\<lambda>v.
     bind_exn (full_name_step v []) (\<lambda>errors.
     bind_exn (py_get data ''email'' (VStr [])) (\<lambda>v.
     bind_exn (email_step v errors) (\<lambda>errors.
     bind_exn (py_get data ''phone'' (VStr [])) (\<lambda>v.
     bind_exn (phone_step v errors) (\<lambda>errors.
     bind_exn (py_get data ''password'' (VStr [])) (\<lambda>password.
     bind_exn (password_step password errors) (\<lambda>errors.
     bind_exn (py_get data ''confirmPassword'' (VStr [])) (\<lambda>confirm_password.
     Inr (confirm_password_step password confirm_password errors))))))))))"

section \<open>The environment of a request\<close>

text \<open>
  The functions of the libraries the program calls (PyJWT, werkzeug, the conversions of
  Python's built-in types, the text search and the sort of the store) are not part of the
  program; the handlers take them as a record of functions.
\<close>

record lib =
  jwt_encode :: "pyval \<Rightarrow> string \<Rightarrow> string"
  jwt_decode :: "string \<Rightarrow> string \<Rightarrow> int \<Rightarrow> exn + pyval"
  generate_password_hash :: "string \<Rightarrow> string"
  check_password_hash :: "string \<Rightarrow> string \<Rightarrow> bool"
  float_of_str :: "string \<Rightarrow> pyfloat option"
  int_of_str :: "string \<Rightarrow> int option"
  isoformat :: "int \<Rightarrow> string"
  str_of_exn :: "exn \<Rightarrow> string"
  str_of_val :: "pyval \<Rightarrow> string"
  text_search :: "string \<Rightarrow> doc \<Rightarrow> bool"
  cursor_sort :: "(string \<times> int) list \<Rightarrow> doc list \<Rightarrow> doc list"

text \<open>
  \<open>jwt_encode payload key\<close> is \<open>jwt.encode(payload, key, algorithm='HS256')\<close>, and
  \<open>jwt_decode token key now\<close> is \<open>jwt.decode(token, key, algorithms=['HS256'])\<close> called at
  the instant \<open>now\<close>. Instants are whole seconds.

  The configuration and what one request draws from outside: the clock, the identifier
  the driver gives an inserted document, and the random UUID.
\<close>

record env =
  ENV :: string
  SECRET_KEY :: string
  utcnow :: int
  new_object_id :: string
  uuid4 :: string

record db =
  users_collection :: "doc list"
  products_collection :: "doc list"

record request =
  authorization :: "string option"
  args :: "(string \<times> string) list"
  get_json :: "exn + pyval"

datatype response = Response pyval nat

definition error_response :: "string \<Rightarrow> nat \<Rightarrow> response" where
  \<comment> \<open>\<open>jsonify({'error': msg}), status\<close>\<close>
  "error_response msg status = Response (VDict [(''error'', VStr msg)]) status"

definition internal_error :: "lib \<Rightarrow> env \<Rightarrow> exn \<Rightarrow> response" where
  \<comment> \<open>the \<open>except Exception\<close> clause of every handler\<close>
  "internal_error l e x =
     Response (VDict [(''error'', VStr ''Internal server error''),
                      (''details'', VStr (if ENV e = ''production'' then ''Please try again''
                                          else str_of_exn l x))]) 500"

definition validation_failed :: "errors \<Rightarrow> response" where
  "validation_failed errs =
     Response (VDict [(''error'', VStr ''Validation failed''),
                      (''errors'', VDict (map (\<lambda>(k, m). (k, VStr m)) errs))]) 400"

section \<open>The document store\<close>

definition doc_matches :: "string \<Rightarrow> pyval \<Rightarrow> doc \<Rightarrow> bool" where
  \<comment> \<open>the query \<open>{k: v}\<close>: the field equals the value, or is an array that holds it\<close>
  "doc_matches k v d =
     (case map_of d k of
        None \<Rightarrow> v = VNone
      | Some (VList xs) \<Rightarrow> VList xs = v \<or> v \<in> set xs
      | Some w \<Rightarrow> w = v)"

definition find_one :: "doc list \<Rightarrow> string \<Rightarrow> pyval \<Rightarrow> doc option" where
  "find_one coll k v = find (doc_matches k v) coll"

definition found :: "doc option \<Rightarrow> bool" where
  \<comment> \<open>the truth value of what \<open>find_one\<close> returned: \<open>None\<close> and the empty dict are false\<close>
  "found r = (case r of None \<Rightarrow> False | Some d \<Rightarrow> d \<noteq> [])"

definition valid_object_id :: "string \<Rightarrow> bool" where
  "valid_object_id s =
     (length s = 24 \<and>
      list_all (\<lambda>c. is_decimal c \<or> (CHR ''a'' \<le> c \<and> c \<le> CHR ''f'') \<or> (CHR ''A'' \<le> c \<and> c \<le> CHR ''F'')) s)"

fun ObjectId :: "pyval \<Rightarrow> exn + pyval" where
  \<comment> \<open>\<open>ObjectId(v)\<close>: 24 hexadecimal digits, kept in lower case\<close>
  "ObjectId (VStr s) = (if valid_object_id s then Inr (VObjectId (py_lower s)) else Inl InvalidId)"
| "ObjectId (VObjectId i) = Inr (VObjectId i)"
| "ObjectId _ = Inl TypeError"

fun py_str :: "lib \<Rightarrow> pyval \<Rightarrow> string" where
  \<comment> \<open>\<open>str(v)\<close>\<close>
  "py_str l (VStr s) = s"
| "py_str l (VObjectId i) = i"
| "py_str l v = str_of_val l v"

definition insert_one :: "env \<Rightarrow> string list \<Rightarrow> doc list \<Rightarrow> doc \<Rightarrow> exn + string \<times> doc list" where
  \<comment> \<open>\<open>coll.insert_one(doc)\<close>: the document gets the driver's new \<open>_id\<close>; the \<open>_id\<close>
      and every field of \<open>unique\<close> (the unique indexes) must differ from those of every
      stored document. Returns \<open>str(result.inserted_id)\<close> and the new collection.\<close>
  "insert_one e unique coll d =
     (let d' = dict_set d ''_id'' (VObjectId (new_object_id e)) in
      if list_ex (\<lambda>k. list_ex (\<lambda>old. map_of old k = map_of d' k) coll) (''_id'' # unique)
      then Inl DuplicateKeyError
      else Inr (new_object_id e, coll @ [d']))"

fun update_first :: "('a \<Rightarrow> bool) \<Rightarrow> ('a \<Rightarrow> 'a) \<Rightarrow> 'a list \<Rightarrow> 'a list" where
  "update_first P f [] = []"
| "update_first P f (x # xs) = (if P x then f x # xs else x # update_first P f xs)"

definition update_one :: "doc list \<Rightarrow> string \<Rightarrow> pyval \<Rightarrow> doc \<Rightarrow> doc list" where
  \<comment> \<open>\<open>coll.update_one({k: v}, {'$set': upd})\<close>\<close>
  "update_one coll k v upd =
     update_first (doc_matches k v) (\<lambda>d. foldl (\<lambda>acc (f, x). dict_set acc f x) d upd) coll"

section \<open>The auth gate\<close>

definition auth_middleware ::
  "lib \<Rightarrow> env \<Rightarrow> db option \<Rightarrow> request \<Rightarrow> (pyval \<Rightarrow> response \<times> db option) \<Rightarrow> response \<times> db option"
where
  "auth_middleware l e dbo req f =
     (case dbo of
        None \<Rightarrow> (error_response ''Database unavailable'' 503, dbo)
      | Some d \<Rightarrow>
     (case (case authorization req of
              None \<Rightarrow> Inr None
            | Some auth_header \<Rightarrow>
                if auth_header \<noteq> [] then
                  (case py_split CHR '' '' auth_header of
                     _ # t # _ \<Rightarrow> Inr (Some t)
                   | _ \<Rightarrow> Inl IndexError)
                else Inr None)
      of
        Inl _ \<Rightarrow> (error_response ''Invalid token format'' 401, dbo)
      | Inr token \<Rightarrow>
     (case token of
        None \<Rightarrow> (error_response ''Token is missing'' 401, dbo)
      | Some [] \<Rightarrow> (error_response ''Token is missing'' 401, dbo)
      | Some tok \<Rightarrow>
     (case bind_exn (jwt_decode l tok (SECRET_KEY e) (utcnow e)) (\<lambda>data.
           bind_exn (py_item data ''user_id'') (\<lambda>uid.
           bind_exn (ObjectId uid) (\<lambda>oid.
             Inr (find_one (users_collection d) ''_id'' oid))))
      of
        Inl ExpiredSignatureError \<Rightarrow> (error_response ''Token has expired'' 401, dbo)
      | Inl InvalidTokenError \<Rightarrow> (error_response ''Token is invalid'' 401, dbo)
      | Inl _ \<Rightarrow> (error_response ''Token validation failed'' 401, dbo)
      | Inr None \<Rightarrow> (error_response ''User not found'' 401, dbo)
      | Inr (Some []) \<Rightarrow> (error_response ''User not found'' 401, dbo)
      | Inr (Some current_user) \<Rightarrow> f (VDict current_user)))))"

section \<open>Registration and login\<close>


definition check_password :: "lib \<Rightarrow> pyval \<Rightarrow> pyval \<Rightarrow> exn + bool" where
  \<comment> \<open>\<open>check_password_hash(stored, given)\<close>\<close>
  "check_password l stored given =
     (case (stored, given) of
        (VStr h, VStr s) \<Rightarrow> Inr (check_password_hash l h s)
      | _ \<Rightarrow> Inl AttributeError)"









section \<open>Products\<close>

fun py_float :: "lib \<Rightarrow> pyval \<Rightarrow> exn + pyfloat" where
  \<comment> \<open>\<open>float(v)\<close>; an int too large for a double raises \<open>OverflowError\<close>. The rounding
      of a finite value to the nearest double is not modelled: it keeps the sign.\<close>
  "py_float l (VFloat f) = Inr f"
| "py_float l (VInt n) =
     (if \<bar>n\<bar> < 2 ^ 1024 - 2 ^ 970 then Inr (Finite (of_int n)) else Inl OverflowError)"
| "py_float l (VBool b) = Inr (Finite (if b then 1 else 0))"
| "py_float l (VStr s) = (case float_of_str l s of None \<Rightarrow> Inl ValueError | Some f \<Rightarrow> Inr f)"
| "py_float l _ = Inl TypeError"

fun float_le_zero :: "pyfloat \<Rightarrow> bool" where
  \<comment> \<open>\<open>x <= 0\<close> on floats: every comparison with NaN is false\<close>
  "float_le_zero (Finite x) = (x \<le> 0)"
| "float_le_zero NegInf = True"
| "float_le_zero PosInf = False"
| "float_le_zero NaN = False"

fun float_gt_zero :: "pyfloat \<Rightarrow> bool" where
  \<comment> \<open>\<open>x > 0\<close> on floats\<close>
  "float_gt_zero (Finite x) = (0 < x)"
| "float_gt_zero PosInf = True"
| "float_gt_zero NegInf = False"
| "float_gt_zero NaN = False"

definition upper_char :: "char \<Rightarrow> char" where
  "upper_char c = (if CHR ''a'' \<le> c \<and> c \<le> CHR ''z'' then char_of (of_char c - (32::nat)) else c)"

definition py_capitalize :: "string \<Rightarrow> string" where
  \<comment> \<open>\<open>s.capitalize()\<close>, on the ASCII field names it is called with\<close>
  "py_capitalize s = (case s of [] \<Rightarrow> [] | c # cs \<Rightarrow> upper_char c # py_lower cs)"

definition to_isoformat :: "lib \<Rightarrow> pyval \<Rightarrow> exn + pyval" where
  \<comment> \<open>\<open>v.isoformat()\<close>: only a datetime has it\<close>
  "to_isoformat l v = (case v of VDatetime t \<Rightarrow> Inr (VStr (isoformat l t)) | _ \<Rightarrow> Inl AttributeError)"

definition present_product :: "lib \<Rightarrow> doc \<Rightarrow> exn + doc" where
  \<comment> \<open>\<open>product['_id'] = str(product['_id'])\<close>, then \<open>createdAt\<close> in ISO format if the
      document has one\<close>
  "present_product l product =
     bind_exn (py_item (VDict product) ''_id'') (\<lambda>oid.
     let product = dict_set product ''_id'' (VStr (py_str l oid)) in
     case map_of product ''createdAt'' of
       None \<Rightarrow> Inr product
     | Some t \<Rightarrow> bind_exn (to_isoformat l t) (\<lambda>iso. Inr (dict_set product ''createdAt'' iso)))"

fun present_products :: "lib \<Rightarrow> doc list \<Rightarrow> exn + doc list" where
  \<comment> \<open>the \<open>for product in products\<close> loop\<close>
  "present_products l [] = Inr []"
| "present_products l (p # ps) =
     bind_exn (present_product l p) (\<lambda>p'.
     bind_exn (present_products l ps) (\<lambda>ps'. Inr (p' # ps')))"

definition int_arg :: "lib \<Rightarrow> request \<Rightarrow> string \<Rightarrow> int \<Rightarrow> exn + int" where
  \<comment> \<open>\<open>int(request.args.get(k, dflt))\<close>\<close>
  "int_arg l req k dflt =
     (case map_of (args req) k of
        None \<Rightarrow> Inr dflt
      | Some s \<Rightarrow> (case int_of_str l s of None \<Rightarrow> Inl ValueError | Some n \<Rightarrow> Inr n))"

definition str_arg :: "request \<Rightarrow> string \<Rightarrow> string \<Rightarrow> string" where
  \<comment> \<open>\<open>request.args.get(k, dflt)\<close>\<close>
  "str_arg req k dflt = (case map_of (args req) k of None \<Rightarrow> dflt | Some s \<Rightarrow> s)"

definition get_products_try :: "lib \<Rightarrow> env \<Rightarrow> db \<Rightarrow> request \<Rightarrow> exn + response \<times> db" where
  "get_products_try l e d req =
     bind_exn (int_arg l req ''page'' 1) (\<lambda>page.
     bind_exn (int_arg l req ''limit'' 10) (\<lambda>limit.
     let sort_param = str_arg req ''sort'' ''-createdAt'';
         keyword = str_arg req ''keyword'' [];
         page = (if page < 1 then 1 else page);
         limit = (if limit < 1 \<or> limit > 100 then 10 else limit);
         matching = (if keyword \<noteq> [] then filter (text_search l keyword) (products_collection d)
                     else products_collection d);
         sort_criteria =
           (case sort_param of
              [] \<Rightarrow> []
            | c # field \<Rightarrow> if c = CHR ''-'' then [(field, - 1)] else [(sort_param, 1)]);
         skip = (page - 1) * limit;
         cursor = (if sort_criteria \<noteq> [] then cursor_sort l sort_criteria matching else matching);
         cursor = take (nat limit) (drop (nat skip) cursor)
     in
     bind_exn (present_products l cursor) (\<lambda>products.
     let total_count = int (length matching);
         total_pages = (total_count + limit - 1) div limit
     in
     Inr (Response (VDict [(''message'', VStr ''Products retrieved successfully''),
                           (''products'', VList (map VDict products)),
                           (''pagination'',
                            VDict [(''currentPage'', VInt page),
                                   (''totalPages'', VInt total_pages),
                                   (''totalItems'', VInt total_count),
                                   (''itemsPerPage'', VInt limit),
                                   (''hasNext'', VBool (page < total_pages)),
                                   (''hasPrev'', VBool (page > 1))]),
                           (''filters'',
                            VDict [(''keyword'', VStr keyword), (''sort'', VStr sort_param)])]) 200,
          d))))"

definition get_products :: "lib \<Rightarrow> env \<Rightarrow> db option \<Rightarrow> request \<Rightarrow> response \<times> db option" where
  "get_products l e dbo req =
     auth_middleware l e dbo req (\<lambda>current_user.
       case dbo of
         None \<Rightarrow> (error_response ''Service temporarily unavailable'' 503, dbo)
       | Some d \<Rightarrow>
           (case get_products_try l e d req of
              Inl x \<Rightarrow> (internal_error l e x, dbo)
            | Inr (r, d') \<Rightarrow> (r, Some d')))"

fun check_required :: "pyval \<Rightarrow> string list \<Rightarrow> errors \<Rightarrow> exn + errors" where
  \<comment> \<open>the \<open>for field in required_fields\<close> loop\<close>
  "check_required data [] errs = Inr errs"
| "check_required data (field # rest) errs =
     bind_exn (py_get data field VNone) (\<lambda>v.
     check_required data rest
       (if \<not> truthy v then dict_set errs field (py_capitalize field @ '' is required'') else errs))"

definition create_product_try ::
  "lib \<Rightarrow> env \<Rightarrow> db \<Rightarrow> request \<Rightarrow> pyval \<Rightarrow> exn + response \<times> db"
where
  "create_product_try l e d req current_user =
     bind_exn (get_json req) (\<lambda>data.
     if \<not> truthy data then Inr (error_response ''No data provided'' 400, d)
     else
     bind_exn (check_required data [''title'', ''description'', ''price''] []) (\<lambda>errors.
     bind_exn
       (case bind_exn (py_get data ''price'' (VInt 0)) (py_float l) of
          Inr price \<Rightarrow>
            Inr (if float_le_zero price
                 then dict_set errors ''price'' ''Price must be a positive number''
                 else errors)
        | Inl ValueError \<Rightarrow> Inr (dict_set errors ''price'' ''Price must be a valid number'')
        | Inl TypeError \<Rightarrow> Inr (dict_set errors ''price'' ''Price must be a valid number'')
        | Inl x \<Rightarrow> Inl x)
       (\<lambda>errors.
     if errors \<noteq> [] then Inr (validation_failed errors, d)
     else
     bind_exn (py_item data ''title'') (\<lambda>v.
     bind_exn (str_strip v) (\<lambda>title.
     bind_exn (py_item data ''description'') (\<lambda>v.
     bind_exn (str_strip v) (\<lambda>description.
     bind_exn (py_item data ''price'') (\<lambda>v.
     bind_exn (py_float l v) (\<lambda>price.
     bind_exn (py_get data ''image'' (VStr ''https://via.placeholder.com/300x200'')) (\<lambda>image.
     bind_exn (py_item current_user ''_id'') (\<lambda>uid.
     let product_data = [(''id'', VStr (uuid4 e)), (''title'', VStr title),
                         (''description'', VStr description), (''price'', VFloat price),
                         (''image'', image), (''createdBy'', VStr (py_str l uid)),
                         (''createdAt'', VDatetime (utcnow e))] in
     bind_exn (insert_one e [] (products_collection d) product_data) (\<lambda>(inserted_id, products').
     let product_data = dict_set product_data ''_id'' (VStr inserted_id);
         product_data = dict_set product_data ''createdAt'' (VStr (isoformat l (utcnow e)))
     in
     Inr (Response (VDict [(''message'', VStr ''Product created successfully''),
                           (''product'', VDict product_data)]) 201,
          d\<lparr>products_collection := products'\<rparr>)))))))))))))"

definition create_product :: "lib \<Rightarrow> env \<Rightarrow> db option \<Rightarrow> request \<Rightarrow> response \<times> db option" where
  "create_product l e dbo req =
     auth_middleware l e dbo req (\<lambda>current_user.
       case dbo of
         None \<Rightarrow> (error_response ''Service temporarily unavailable'' 503, dbo)
       | Some d \<Rightarrow>
           (case create_product_try l e d req current_user of
              Inl x \<Rightarrow> (internal_error l e x, dbo)
            | Inr (r, d') \<Rightarrow> (r, Some d')))"

definition update_data_of :: "lib \<Rightarrow> env \<Rightarrow> pyval \<Rightarrow> exn + response + doc" where
  \<comment> \<open>the fields \<open>update_product\<close> will set; \<open>Inr (Inl r)\<close> is an early \<open>return r\<close>\<close>
  "update_data_of l e data =
     bind_exn (py_contains data ''title'') (\<lambda>has_title.
     bind_exn (if has_title
               then bind_exn (py_item data ''title'') (\<lambda>v.
                    bind_exn (str_strip v) (\<lambda>s. Inr [(''title'', VStr s)]))
               else Inr []) (\<lambda>update_data.
     bind_exn (py_contains data ''description'') (\<lambda>has_description.
     bind_exn (if has_description
               then bind_exn (py_item data ''description'') (\<lambda>v.
                    bind_exn (str_strip v) (\<lambda>s. Inr (dict_set update_data ''description'' (VStr s))))
               else Inr update_data) (\<lambda>update_data.
     bind_exn (py_contains data ''price'') (\<lambda>has_price.
     bind_exn (if has_price
               then (case bind_exn (py_item data ''price'') (py_float l) of
                       Inr price \<Rightarrow>
                         if float_le_zero price
                         then Inr (Inl (error_response ''Price must be positive'' 400))
                         else Inr (Inr (dict_set update_data ''price'' (VFloat price)))
                     | Inl ValueError \<Rightarrow> Inr (Inl (error_response ''Invalid price'' 400))
                     | Inl TypeError \<Rightarrow> Inr (Inl (error_response ''Invalid price'' 400))
                     | Inl x \<Rightarrow> Inl x)
               else Inr (Inr update_data)) (\<lambda>step.
     case step of
       Inl r \<Rightarrow> Inr (Inl r)
     | Inr update_data \<Rightarrow>
     bind_exn (py_contains data ''image'') (\<lambda>has_image.
     bind_exn (if has_image
               then bind_exn (py_item data ''image'') (\<lambda>v. Inr (dict_set update_data ''image'' v))
               else Inr update_data) (\<lambda>update_data.
     Inr (Inr (dict_set update_data ''updatedAt'' (VDatetime (utcnow e))))))))))))"

definition present_updated :: "lib \<Rightarrow> doc option \<Rightarrow> exn + response" where
  \<comment> \<open>what \<open>update_product\<close> does after the write: read the document back and format it\<close>
  "present_updated l updated =
     (case updated of
        None \<Rightarrow> Inl TypeError
      | Some updated_product \<Rightarrow>
          bind_exn (present_product l updated_product) (\<lambda>p.
          bind_exn (case map_of p ''updatedAt'' of
                      None \<Rightarrow> Inr p
                    | Some t \<Rightarrow> bind_exn (to_isoformat l t) (\<lambda>iso. Inr (dict_set p ''updatedAt'' iso)))
            (\<lambda>p.
          Inr (Response (VDict [(''message'', VStr ''Product updated successfully''),
                                (''product'', VDict p)]) 200))))"

definition update_product_try ::
  "lib \<Rightarrow> env \<Rightarrow> db \<Rightarrow> request \<Rightarrow> string \<Rightarrow> (exn + response) \<times> db"
where
  "update_product_try l e d req product_id =
     (case bind_exn (get_json req) (\<lambda>data.
             if \<not> truthy data then Inr (Inl (error_response ''No data provided'' 400))
             else if \<not> found (find_one (products_collection d) ''id'' (VStr product_id))
             then Inr (Inl (error_response ''Product not found'' 404))
             else update_data_of l e data)
      of
        Inl x \<Rightarrow> (Inl x, d)
      | Inr (Inl r) \<Rightarrow> (Inr r, d)
      | Inr (Inr update_data) \<Rightarrow>
          (let products' = update_one (products_collection d) ''id'' (VStr product_id) update_data
           in (present_updated l (find_one products' ''id'' (VStr product_id)),
               d\<lparr>products_collection := products'\<rparr>)))"

definition update_product ::
  "lib \<Rightarrow> env \<Rightarrow> db option \<Rightarrow> request \<Rightarrow> string \<Rightarrow> response \<times> db option"
where
  "update_product l e dbo req product_id =
     auth_middleware l e dbo req (\<lambda>current_user.
       case dbo of
         None \<Rightarrow> (error_response ''Service temporarily unavailable'' 503, dbo)
       | Some d \<Rightarrow>
           (case update_product_try l e d req product_id of
              (Inl x, d') \<Rightarrow> (internal_error l e x, Some d')
            | (Inr r, d') \<Rightarrow> (r, Some d')))"

section \<open>Definitions used in the statements\<close>

definition field_or_empty :: "doc \<Rightarrow> string \<Rightarrow> pyval" where
  \<comment> \<open>what \<open>data.get(k, '')\<close> gives on the dict \<open>kvs\<close>\<close>
  "field_or_empty kvs k = (case map_of kvs k of None \<Rightarrow> VStr [] | Some w \<Rightarrow> w)"

definition trim_val :: "pyval \<Rightarrow> pyval" where
  \<comment> \<open>a string value trimmed; any other value as it is\<close>
  "trim_val v = (case v of VStr s \<Rightarrow> VStr (py_strip s) | _ \<Rightarrow> v)"

definition trim_field :: "string \<Rightarrow> pyval \<Rightarrow> pyval" where
  \<comment> \<open>the input with the value of one field trimmed\<close>
  "trim_field k data =
     (case data of
        VDict kvs \<Rightarrow> VDict (map (\<lambda>(k', v). if k' = k then (k', trim_val v) else (k', v)) kvs)
      | _ \<Rightarrow> data)"

definition trim_fields :: "pyval \<Rightarrow> pyval" where
  \<comment> \<open>the input with every string field trimmed\<close>
  "trim_fields data =
     (case data of VDict kvs \<Rightarrow> VDict (map (\<lambda>(k, v). (k, trim_val v)) kvs) | _ \<Rightarrow> data)"

definition is_letter :: "char \<Rightarrow> bool" where
  \<comment> \<open>a letter, as the patterns of the program and of the spec mean it: A to Z, a to z\<close>
  "is_letter c = ((CHR ''a'' \<le> c \<and> c \<le> CHR ''z'') \<or> (CHR ''A'' \<le> c \<and> c \<le> CHR ''Z''))"

definition local_char :: "char \<Rightarrow> bool" where
  \<comment> \<open>letters, digits and \<open>._%+-\<close>\<close>
  "local_char c = (is_letter c \<or> is_decimal c \<or> c \<in> set ''._%+-'')"

definition domain_char :: "char \<Rightarrow> bool" where
  \<comment> \<open>letters, digits, dot and hyphen\<close>
  "domain_char c = (is_letter c \<or> is_decimal c \<or> c \<in> set ''.-'')"

definition last_label :: "string \<Rightarrow> string" where
  \<comment> \<open>what follows the last dot: the TLD of a domain\<close>
  "last_label s = rev (takeWhile (\<lambda>c. c \<noteq> CHR ''.'') (rev s))"

definition before_last_dot :: "string \<Rightarrow> string" where
  \<comment> \<open>what precedes the last dot\<close>
  "before_last_dot s = rev (drop (Suc (length (last_label s))) (rev s))"

definition documented_email :: "string \<Rightarrow> bool" where
  \<comment> \<open>the pattern in the words of the spec: a non-empty local part of letters, digits and
      \<open>._%+-\<close>, an \<open>@\<close>, a domain with at least one dot, and a TLD of at least two letters\<close>
  "documented_email e =
     (let local = takeWhile (\<lambda>c. c \<noteq> CHR ''@'') e;
          domain = drop (Suc (length local)) e
      in CHR ''@'' \<in> set e \<and> local \<noteq> [] \<and> list_all local_char local
         \<and> CHR ''.'' \<in> set domain
         \<and> 2 \<le> length (last_label domain) \<and> list_all is_letter (last_label domain))"

definition stated_email :: "string \<Rightarrow> bool" where
  \<comment> \<open>the same, and the domain before its last dot is one or more letters, digits, dots
      and hyphens\<close>
  "stated_email e =
     (let local = takeWhile (\<lambda>c. c \<noteq> CHR ''@'') e;
          domain = drop (Suc (length local)) e
      in CHR ''@'' \<in> set e \<and> local \<noteq> [] \<and> list_all local_char local
         \<and> CHR ''.'' \<in> set domain
         \<and> before_last_dot domain \<noteq> [] \<and> list_all domain_char (before_last_dot domain)
         \<and> 2 \<le> length (last_label domain) \<and> list_all is_letter (last_label domain))"

text \<open>
  Modelled from the spec: PyJWT's \<open>jwt.encode\<close> and \<open>jwt.decode\<close>, which are not among
  the source files. Spec 4.2: the token is an opaque signed string encoding the claims,
  signed with the secret key by a symmetric algorithm; verification decodes it, fails with
  InvalidToken if the format or the signature is invalid and with ExpiredToken if
  \<open>now > expiresAt\<close>, and gives the claims otherwise. The signing function, the
  serialisation and its inverse stay parameters. A datetime among the claims is encoded
  as its number of seconds.
\<close>

definition spec_claims :: "pyval \<Rightarrow> pyval" where
  "spec_claims payload =
     (case payload of
        VDict kvs \<Rightarrow> VDict (map (\<lambda>(k, v). (k, case v of VDatetime t \<Rightarrow> VInt t | _ \<Rightarrow> v)) kvs)
      | _ \<Rightarrow> payload)"

definition spec_jwt_encode ::
  "(string \<Rightarrow> pyval \<Rightarrow> string) \<Rightarrow> (pyval \<times> string \<Rightarrow> string) \<Rightarrow> pyval \<Rightarrow> string \<Rightarrow> string"
where
  "spec_jwt_encode mac ser payload key = ser (spec_claims payload, mac key (spec_claims payload))"

definition spec_jwt_decode ::
  "(string \<Rightarrow> pyval \<Rightarrow> string) \<Rightarrow> (string \<Rightarrow> (pyval \<times> string) option) \<Rightarrow>
   string \<Rightarrow> string \<Rightarrow> int \<Rightarrow> exn + pyval"
where
  "spec_jwt_decode mac parse token key now =
     (case parse token of
        None \<Rightarrow> Inl InvalidTokenError
      | Some (claims, signature) \<Rightarrow>
          if signature \<noteq> mac key claims then Inl InvalidTokenError
          else (case py_item claims ''exp'' of
                  Inr (VInt expires_at) \<Rightarrow>
                    if now > expires_at then Inl ExpiredSignatureError else Inr claims
                | _ \<Rightarrow> Inr claims))"

text \<open>
  A small instance of the environment, on which the statements below are evaluated: a
  signing function, a table of two serialised tokens, and the simplest library functions.
\<close>

definition demo_mac :: "string \<Rightarrow> pyval \<Rightarrow> string" where
  "demo_mac key claims =
     key @ ''/'' @ (case py_item claims ''user_id'' of Inr (VStr u) \<Rightarrow> u | _ \<Rightarrow> [])"

definition demo_claims :: "string \<Rightarrow> pyval" where
  "demo_claims uid =
     VDict [(''user_id'', VStr uid), (''email'', VStr ''ada@example.org''),
            (''exp'', VInt (1000 + 24 * 3600))]"

definition demo_tokens :: "(string \<times> pyval \<times> string) list" where
  "demo_tokens =
     [(''tok1'', (demo_claims ''64b0c0ffee64b0c0ffee0001'', ''s3cret/64b0c0ffee64b0c0ffee0001'')),
      (''tok2'', (demo_claims ''64b0c0ffee64b0c0ffee0002'', ''s3cret/64b0c0ffee64b0c0ffee0002''))]"

definition demo_ser :: "pyval \<times> string \<Rightarrow> string" where
  "demo_ser x = (case find (\<lambda>(t, y). y = x) demo_tokens of Some (t, y) \<Rightarrow> t | None \<Rightarrow> ''none'')"

definition demo_parse :: "string \<Rightarrow> (pyval \<times> string) option" where
  "demo_parse t = map_of demo_tokens t"

definition demo_lib :: lib where
  "demo_lib =
     \<lparr>jwt_encode = spec_jwt_encode demo_mac demo_ser,
      jwt_decode = spec_jwt_decode demo_mac demo_parse,
      generate_password_hash = (\<lambda>s. ''hash:'' @ s),
      check_password_hash = (\<lambda>h s. h = ''hash:'' @ s),
      float_of_str = (\<lambda>s. if s = ''nan'' then Some NaN
                            else if s = ''9.99'' then Some (Finite (999 / 100)) else None),
      int_of_str = (\<lambda>s. if s = ''2'' then Some 2 else if s = ''5'' then Some 5 else None),
      isoformat = (\<lambda>t. ''1970-01-01T00:00:00''),
      str_of_exn = (\<lambda>x. ''error''),
      str_of_val = (\<lambda>v. ''value''),
      text_search = (\<lambda>k d. True),
      cursor_sort = (\<lambda>c xs. rev xs)\<rparr>"

definition demo_env :: env where
  "demo_env =
     \<lparr>ENV = ''production'', SECRET_KEY = ''s3cret'', utcnow = 1000,
      new_object_id = ''64b0c0ffee64b0c0ffee0001'', uuid4 = ''0b5e1f0e-0000-4000-8000-000000000001''\<rparr>"

definition demo_user :: doc where
  "demo_user =
     [(''name'', VStr ''Ada''), (''email'', VStr ''ada@example.org''),
      (''password'', VStr ''hash:secret1''), (''createdAt'', VDatetime 1000),
      (''isActive'', VBool True), (''_id'', VObjectId ''64b0c0ffee64b0c0ffee0001'')]"

definition demo_db :: db where
  "demo_db = \<lparr>users_collection = [demo_user], products_collection = []\<rparr>"

definition bearer :: "string \<Rightarrow> request" where
  \<comment> \<open>a request that carries \<open>Authorization: h\<close> and no body\<close>
  "bearer h = \<lparr>authorization = Some h, args = [], get_json = Inl BadRequest\<rparr>"

definition resolve_token :: "lib \<Rightarrow> env \<Rightarrow> db \<Rightarrow> string \<Rightarrow> exn + doc option" where
  \<comment> \<open>the \<open>try\<close> block of \<open>auth_middleware\<close> on a token: decode, then look the subject up\<close>
  "resolve_token l e d tok =
     bind_exn (jwt_decode l tok (SECRET_KEY e) (utcnow e)) (\<lambda>data.
     bind_exn (py_item data ''user_id'') (\<lambda>uid.
     bind_exn (ObjectId uid) (\<lambda>oid.
       Inr (find_one (users_collection d) ''_id'' oid))))"




definition body_request :: "pyval \<Rightarrow> request" where
  \<comment> \<open>a request with a JSON body and no header\<close>
  "body_request data = \<lparr>authorization = None, args = [], get_json = Inr data\<rparr>"





definition presentable :: "doc \<Rightarrow> bool" where
  \<comment> \<open>a stored product as the program stores them: it has an \<open>_id\<close>, and its \<open>createdAt\<close>,
      if any, is a datetime\<close>
  "presentable p =
     (map_of p ''_id'' \<noteq> None \<and>
      (case map_of p ''createdAt'' of None \<Rightarrow> True | Some (VDatetime t) \<Rightarrow> True | Some _ \<Rightarrow> False))"

definition matching_products :: "lib \<Rightarrow> request \<Rightarrow> db \<Rightarrow> doc list" where
  \<comment> \<open>the products the listing's filter selects: all of them, or those the keyword finds\<close>
  "matching_products l req d =
     (if str_arg req ''keyword'' [] \<noteq> []
      then filter (text_search l (str_arg req ''keyword'' [])) (products_collection d)
      else products_collection d)"

definition demo_product :: doc where
  "demo_product =
     [(''_id'', VObjectId ''64b0c0ffee64b0c0ffee0009''), (''id'', VStr ''p''),
      (''title'', VStr ''Tea''), (''price'', VFloat (Finite (999 / 100))),
      (''createdAt'', VDatetime 1000)]"

definition demo_listing :: request where
  "demo_listing =
     \<lparr>authorization = Some ''Bearer tok1'', args = [(''page'', ''2''), (''limit'', ''5'')],
      get_json = Inl BadRequest\<rparr>"

definition demo_shop :: db where
  "demo_shop = \<lparr>users_collection = [demo_user], products_collection = replicate 12 demo_product\<rparr>"

definition nan_product :: pyval where
  \<comment> \<open>the JSON body \<open>{"title": "Tea", "description": "Green", "price": "nan"}\<close>\<close>
  "nan_product =
     VDict [(''title'', VStr ''Tea''), (''description'', VStr ''Green''), (''price'', VStr ''nan'')]"

section \<open>Exceptions, dicts and the steps of the validators\<close>

lemma bind_exn_Inr: "bind_exn m f = Inr r \<longleftrightarrow> (\<exists>v. m = Inr v \<and> f v = Inr r)"
  by (cases m) (simp_all add: bind_exn_def)

lemma bind_exn_simps:
  "bind_exn (Inr v) f = f v" "bind_exn (Inl x) f = Inl x"
  by (simp_all add: bind_exn_def)

lemma str_strip_Inr: "str_strip v = Inr s \<longleftrightarrow> (\<exists>t. v = VStr t \<and> s = py_strip t)"
  by (cases v) auto

lemma map_of_dict_set: "map_of (dict_set d k v) k' = (if k' = k then Some v else map_of d k')"
  by (simp add: dict_set_def update_conv')

lemma py_get_Inr:
  "py_get data k (VStr []) = Inr v \<longleftrightarrow> (\<exists>kvs. data = VDict kvs \<and> v = field_or_empty kvs k)"
  by (cases data) (auto simp: field_or_empty_def)

lemma validate_registration_data_steps:
  "validate_registration_data data = Inr errs \<longleftrightarrow>
     (\<exists>kvs e1 e2 e3 e4. data = VDict kvs
        \<and> full_name_step (field_or_empty kvs ''fullName'') [] = Inr e1
        \<and> email_step (field_or_empty kvs ''email'') e1 = Inr e2
        \<and> phone_step (field_or_empty kvs ''phone'') e2 = Inr e3
        \<and> password_step (field_or_empty kvs ''password'') e3 = Inr e4
        \<and> errs = confirm_password_step (field_or_empty kvs ''password'')
                    (field_or_empty kvs ''confirmPassword'') e4)"
  unfolding validate_registration_data_def by (auto simp: bind_exn_Inr py_get_Inr)

lemma isdigit_nondigits:
  "\<not> length (re_sub_nondigits s) < 10 \<Longrightarrow> py_isdigit (re_sub_nondigits s)"
  by (auto simp: py_isdigit_def re_sub_nondigits_def list_all_iff)

lemma full_name_step_frame:
  "full_name_step v errs = Inr errs' \<Longrightarrow> k \<noteq> ''fullName'' \<Longrightarrow> map_of errs' k = map_of errs k"
  by (auto simp: full_name_step_def bind_exn_Inr map_of_dict_set split: if_splits)

lemma name_step_frame:
  "name_step v errs = Inr errs' \<Longrightarrow> k \<noteq> ''name'' \<Longrightarrow> map_of errs' k = map_of errs k"
  by (auto simp: name_step_def bind_exn_Inr map_of_dict_set split: if_splits)

lemma email_step_frame:
  "email_step v errs = Inr errs' \<Longrightarrow> k \<noteq> ''email'' \<Longrightarrow> map_of errs' k = map_of errs k"
  by (auto simp: email_step_def bind_exn_Inr map_of_dict_set Let_def split: if_splits)

lemma phone_step_frame:
  "phone_step v errs = Inr errs' \<Longrightarrow> k \<noteq> ''phone'' \<Longrightarrow> map_of errs' k = map_of errs k"
  by (auto simp: phone_step_def bind_exn_Inr map_of_dict_set Let_def split: if_splits)

lemma password_step_frame:
  "password_step v errs = Inr errs' \<Longrightarrow> k \<noteq> ''password'' \<Longrightarrow> map_of errs' k = map_of errs k"
  by (auto simp: password_step_def bind_exn_Inr map_of_dict_set split: if_splits)

lemma confirm_password_step_frame:
  "k \<noteq> ''confirmPassword'' \<Longrightarrow> map_of (confirm_password_step p c errs) k = map_of errs k"
  by (auto simp: confirm_password_step_def map_of_dict_set)

lemma phone_step_own:
  assumes "phone_step v errs = Inr errs'"
  shows "\<exists>p. v = VStr p \<and>
     errs' =
       (if py_strip p = [] then dict_set errs ''phone'' ''Phone number is required''
        else if length (re_sub_nondigits (py_strip p)) < 10 \<or> length (re_sub_nondigits (py_strip p)) > 15
        then dict_set errs ''phone'' ''Phone must contain 10 to 15 digits only''
        else errs)"
proof -
  from assms obtain p where v: "v = VStr p"
    by (auto simp: phone_step_def bind_exn_Inr str_strip_Inr)
  show ?thesis
    using assms unfolding v phone_step_def
    by (auto simp: bind_exn_def Let_def isdigit_nondigits)
qed

lemma registration_phone_entry:
  assumes "validate_registration_data (VDict kvs) = Inr errs"
  shows "\<exists>p. field_or_empty kvs ''phone'' = VStr p \<and>
     map_of errs ''phone'' =
       (if py_strip p = [] then Some ''Phone number is required''
        else if length (re_sub_nondigits (py_strip p)) < 10 \<or> length (re_sub_nondigits (py_strip p)) > 15
        then Some ''Phone must contain 10 to 15 digits only''
        else None)"
proof -
  from assms obtain e1 e2 e3 e4 where
    s1: "full_name_step (field_or_empty kvs ''fullName'') [] = Inr e1" and
    s2: "email_step (field_or_empty kvs ''email'') e1 = Inr e2" and
    s3: "phone_step (field_or_empty kvs ''phone'') e2 = Inr e3" and
    s4: "password_step (field_or_empty kvs ''password'') e3 = Inr e4" and
    s5: "errs = confirm_password_step (field_or_empty kvs ''password'')
                    (field_or_empty kvs ''confirmPassword'') e4"
    unfolding validate_registration_data_steps by blast
  have "map_of e1 ''phone'' = None"
    using full_name_step_frame [OF s1, of "''phone''"] by simp
  then have e2: "map_of e2 ''phone'' = None"
    using email_step_frame [OF s2, of "''phone''"] by simp
  from phone_step_own [OF s3] obtain p where
    p: "field_or_empty kvs ''phone'' = VStr p" and
    e3: "e3 = (if py_strip p = [] then dict_set e2 ''phone'' ''Phone number is required''
        else if length (re_sub_nondigits (py_strip p)) < 10 \<or> length (re_sub_nondigits (py_strip p)) > 15
        then dict_set e2 ''phone'' ''Phone must contain 10 to 15 digits only''
        else e2)" by blast
  have "map_of e4 ''phone'' = map_of e3 ''phone''"
    using password_step_frame [OF s4, of "''phone''"] by simp
  moreover have "map_of errs ''phone'' = map_of e4 ''phone''"
    unfolding s5 by (rule confirm_password_step_frame) simp
  ultimately have "map_of errs ''phone'' = map_of e3 ''phone''" by simp
  then show ?thesis
    using p e2 unfolding e3 by (auto simp: map_of_dict_set)
qed

lemma not_decimal_space: "isspace c \<Longrightarrow> \<not> is_decimal c"
  by (auto simp: isspace_def is_decimal_def less_eq_char_def)

lemma filter_dropWhile_disjoint:
  "(\<And>x. Q x \<Longrightarrow> \<not> P x) \<Longrightarrow> filter P (dropWhile Q xs) = filter P xs"
  by (induction xs) auto

lemma nondigits_strip: "re_sub_nondigits (py_strip s) = filter is_decimal s"
proof -
  have "filter is_decimal (rev (dropWhile isspace (rev (dropWhile isspace s))))
        = rev (filter is_decimal (dropWhile isspace (rev (dropWhile isspace s))))"
    by (simp add: rev_filter)
  also have "\<dots> = rev (filter is_decimal (rev (dropWhile isspace s)))"
    by (simp add: filter_dropWhile_disjoint not_decimal_space)
  also have "\<dots> = filter is_decimal (dropWhile isspace s)"
    by (simp add: rev_filter)
  also have "\<dots> = filter is_decimal s"
    by (simp add: filter_dropWhile_disjoint not_decimal_space)
  finally show ?thesis by (simp add: re_sub_nondigits_def py_strip_def)
qed

lemma strip_prefix_keeps_head:
  assumes "xs = [] \<or> \<not> P (hd xs)"
  shows "dropWhile P (rev (dropWhile P (rev xs))) = rev (dropWhile P (rev xs))"
proof (cases "rev (dropWhile P (rev xs)) = []")
  case True
  show ?thesis unfolding True by simp
next
  case False
  have "xs = rev (dropWhile P (rev xs)) @ rev (takeWhile P (rev xs))"
    by (metis rev_append rev_rev_ident takeWhile_dropWhile_id)
  with False have "hd (rev (dropWhile P (rev xs))) = hd xs"
    by (metis hd_append2)
  moreover from False have "xs \<noteq> []" by auto
  ultimately have "\<not> P (hd (rev (dropWhile P (rev xs))))"
    using assms by simp
  with False show ?thesis
    by (simp add: dropWhile_eq_self_iff)
qed

lemma py_strip_idem: "py_strip (py_strip s) = py_strip s"
proof -
  have h: "dropWhile isspace s = [] \<or> \<not> isspace (hd (dropWhile isspace s))"
    by (metis hd_dropWhile)
  show ?thesis
    unfolding py_strip_def
    by (simp add: strip_prefix_keeps_head [of "dropWhile isspace s" isspace, OF h] dropWhile_idem)
qed

lemma str_strip_trim_val: "str_strip (trim_val v) = str_strip v"
  by (cases v) (simp_all add: trim_val_def py_strip_idem)

lemma steps_trim_val:
  "name_step (trim_val v) e = name_step v e"
  "full_name_step (trim_val v) e = full_name_step v e"
  "email_step (trim_val v) e = email_step v e"
  "phone_step (trim_val v) e = phone_step v e"
  by (simp_all add: name_step_def full_name_step_def email_step_def phone_step_def str_strip_trim_val)

lemma map_of_trim_field:
  "map_of (map (\<lambda>(k', v). if k' = k then (k', trim_val v) else (k', v)) kvs) k'
   = (if k' = k then map_option trim_val (map_of kvs k') else map_of kvs k')"
  by (induction kvs) auto

lemma trim_val_empty: "trim_val (VStr []) = VStr []"
  by (simp add: trim_val_def py_strip_def)

lemma py_get_trim_field:
  "py_get (trim_field k data) k' (VStr []) =
     (if k' = k then map_sum id trim_val (py_get data k' (VStr [])) else py_get data k' (VStr []))"
  by (cases data) (auto simp: trim_field_def map_of_trim_field trim_val_empty split: option.splits)


lemma bind_exn_map_sum: "bind_exn (map_sum id g m) f = bind_exn m (\<lambda>v. f (g v))"
  by (cases m) (simp_all add: bind_exn_def)

lemma validate_registration_data_trim:
  "k = ''fullName'' \<or> k = ''email'' \<or> k = ''phone'' \<Longrightarrow>
   validate_registration_data (trim_field k data) = validate_registration_data data"
  by (auto simp: validate_registration_data_def py_get_trim_field bind_exn_map_sum steps_trim_val)

lemma validate_auth_data_trim:
  "k = ''name'' \<or> k = ''email'' \<Longrightarrow>
   validate_auth_data (trim_field k data) is_login = validate_auth_data data is_login"
  by (auto simp: validate_auth_data_def py_get_trim_field bind_exn_map_sum steps_trim_val)

lemma validate_auth_data_steps:
  "validate_auth_data data is_login = Inr errs \<longleftrightarrow>
     (\<exists>kvs e1 e2. data = VDict kvs
        \<and> (if is_login then e1 = [] else name_step (field_or_empty kvs ''name'') [] = Inr e1)
        \<and> email_step (field_or_empty kvs ''email'') e1 = Inr e2
        \<and> password_step (field_or_empty kvs ''password'') e2 = Inr errs)"
  unfolding validate_auth_data_def by (auto simp: bind_exn_Inr py_get_Inr)

lemma password_step_str:
  "password_step (VStr pw) e =
     Inr (if pw = [] then dict_set e ''password'' ''Password is required''
          else if length pw < 6
          then dict_set e ''password'' ''Password must be at least 6 characters long''
          else e)"
  by (simp add: password_step_def bind_exn_simps)

lemma auth_password_entry:
  assumes "validate_auth_data (VDict kvs) is_login = Inr errs"
      and "field_or_empty kvs ''password'' = VStr pw"
  shows "map_of errs ''password'' =
           (if pw = [] then Some ''Password is required''
            else if length pw < 6 then Some ''Password must be at least 6 characters long''
            else None)"
proof -
  from assms(1) obtain e1 e2 where
    s1: "if is_login then e1 = [] else name_step (field_or_empty kvs ''name'') [] = Inr e1" and
    s2: "email_step (field_or_empty kvs ''email'') e1 = Inr e2" and
    s3: "password_step (field_or_empty kvs ''password'') e2 = Inr errs"
    unfolding validate_auth_data_steps by blast
  have "map_of e1 ''password'' = None"
    using s1 name_step_frame [of "field_or_empty kvs ''name''" "[]" e1 "''password''"]
    by (cases is_login) simp_all
  then have "map_of e2 ''password'' = None"
    using email_step_frame [OF s2, of "''password''"] by simp
  then show ?thesis
    using s3 unfolding assms(2) password_step_str by (auto simp: map_of_dict_set)
qed

lemma registration_password_entries:
  assumes "validate_registration_data (VDict kvs) = Inr errs"
      and "field_or_empty kvs ''password'' = VStr pw"
      and "field_or_empty kvs ''confirmPassword'' = VStr cpw"
  shows "map_of errs ''password'' =
           (if pw = [] then Some ''Password is required''
            else if length pw < 6 then Some ''Password must be at least 6 characters long''
            else None)"
    and "map_of errs ''confirmPassword'' =
           (if cpw = [] then Some ''Confirm Password is required''
            else if pw \<noteq> cpw then Some ''Passwords do not match''
            else None)"
proof -
  from assms(1) obtain e1 e2 e3 e4 where
    s1: "full_name_step (field_or_empty kvs ''fullName'') [] = Inr e1" and
    s2: "email_step (field_or_empty kvs ''email'') e1 = Inr e2" and
    s3: "phone_step (field_or_empty kvs ''phone'') e2 = Inr e3" and
    s4: "password_step (field_or_empty kvs ''password'') e3 = Inr e4" and
    s5: "errs = confirm_password_step (field_or_empty kvs ''password'')
                    (field_or_empty kvs ''confirmPassword'') e4"
    unfolding validate_registration_data_steps by blast
  have e3: "map_of e3 k = None" if "k = ''password'' \<or> k = ''confirmPassword''" for k
  proof -
    have "map_of e1 k = None"
      using that full_name_step_frame [OF s1, of k] by auto
    then have "map_of e2 k = None"
      using that email_step_frame [OF s2, of k] by auto
    then show ?thesis
      using that phone_step_frame [OF s3, of k] by auto
  qed
  have e4: "map_of e4 ''password'' =
           (if pw = [] then Some ''Password is required''
            else if length pw < 6 then Some ''Password must be at least 6 characters long''
            else None)"
    using s4 e3 [of "''password''"] unfolding assms(2) password_step_str
    by (auto simp: map_of_dict_set)
  have "map_of errs ''password'' = map_of e4 ''password''"
    unfolding s5 by (rule confirm_password_step_frame) simp
  with e4 show "map_of errs ''password'' =
           (if pw = [] then Some ''Password is required''
            else if length pw < 6 then Some ''Password must be at least 6 characters long''
            else None)" by simp
  have "map_of e4 ''confirmPassword'' = None"
    using password_step_frame [OF s4, of "''confirmPassword''"] e3 [of "''confirmPassword''"] by simp
  then show "map_of errs ''confirmPassword'' =
           (if cpw = [] then Some ''Confirm Password is required''
            else if pw \<noteq> cpw then Some ''Passwords do not match''
            else None)"
    unfolding s5 assms(2) assms(3) by (simp add: confirm_password_step_def map_of_dict_set)
qed

section \<open>The email pattern\<close>

lemma matches_Nothing: "matches Nothing w = False"
  by (induction w) simp_all

lemma matches_Empty: "matches Empty w = (w = [])"
  by (cases w) (simp_all add: matches_Nothing)

lemma matches_Lit: "matches (Lit c) w = (w = [c])"
  by (cases w) (auto simp: matches_Nothing matches_Empty)

lemma matches_Alt: "matches (Alt r s) w = (matches r w \<or> matches s w)"
  by (induction w arbitrary: r s) simp_all

lemma matches_Cat:
  "matches (Cat r s) w = (\<exists>u v. w = u @ v \<and> matches r u \<and> matches s v)"
proof (induction w arbitrary: r)
  case Nil
  then show ?case by simp
next
  case (Cons c cs)
  have split: "(\<exists>u v. c # cs = u @ v \<and> matches r u \<and> matches s v) =
        ((nullable r \<and> matches s (c # cs)) \<or> (\<exists>u v. cs = u @ v \<and> matches (deriv c r) u \<and> matches s v))"
    (is "?L = ?R")
  proof
    assume ?L
    then obtain u v where uv: "c # cs = u @ v" "matches r u" "matches s v" by blast
    show ?R
    proof (cases u)
      case Nil
      with uv show ?thesis by simp
    next
      case (Cons a u')
      with uv have "cs = u' @ v" "matches (deriv c r) u'" by simp_all
      with uv(3) show ?thesis by blast
    qed
  next
    assume ?R
    then show ?L
    proof
      assume "nullable r \<and> matches s (c # cs)"
      then have "c # cs = [] @ (c # cs) \<and> matches r [] \<and> matches s (c # cs)" by simp
      then show ?L by blast
    next
      assume "\<exists>u v. cs = u @ v \<and> matches (deriv c r) u \<and> matches s v"
      then obtain u v where "cs = u @ v" "matches (deriv c r) u" "matches s v" by blast
      then have "c # cs = (c # u) @ v \<and> matches r (c # u) \<and> matches s v" by simp
      then show ?L by blast
    qed
  qed
  have ih: "matches (Cat (deriv c r) s) cs = (\<exists>u v. cs = u @ v \<and> matches (deriv c r) u \<and> matches s v)"
    by (rule Cons.IH)
  show ?case
    unfolding split by (auto simp: matches_Alt ih)
qed

lemma matches_Cat_Class:
  "matches (Cat (Class cs) r) w =
     (case w of [] \<Rightarrow> False | c # v \<Rightarrow> list_ex (\<lambda>i. in_item i c) cs \<and> matches r v)"
  by (cases w) (simp_all add: matches_Cat matches_Empty matches_Nothing)

lemma matches_Star_Class:
  "matches (Star (Class cs)) w = list_all (\<lambda>c. list_ex (\<lambda>i. in_item i c) cs) w"
proof (induction w)
  case Nil
  then show ?case by simp
next
  case (Cons c w)
  have "matches (Star (Class cs)) (c # w) = matches (Cat (deriv c (Class cs)) (Star (Class cs))) w"
    by simp
  also have "\<dots> = (list_ex (\<lambda>i. in_item i c) cs \<and> matches (Star (Class cs)) w)"
    by (simp add: matches_Cat matches_Empty matches_Nothing)
  finally show ?case using Cons.IH by simp
qed

lemma matches_plus_Class:
  "matches (plus (Class cs)) w = (w \<noteq> [] \<and> list_all (\<lambda>c. list_ex (\<lambda>i. in_item i c) cs) w)"
  by (cases w) (simp_all add: plus_def matches_Cat_Class matches_Star_Class del: matches.simps)

lemma matches_at_least_2_Class:
  "matches (at_least 2 (Class cs)) w = (2 \<le> length w \<and> list_all (\<lambda>c. list_ex (\<lambda>i. in_item i c) cs) w)"
proof (cases w)
  case Nil
  then show ?thesis
    by (simp add: numeral_2_eq_2 matches_Cat_Class del: matches.simps)
next
  case (Cons a w')
  then show ?thesis
    by (cases w') (simp_all add: numeral_2_eq_2 matches_Cat_Class matches_Star_Class del: matches.simps)
qed


lemma local_class:
  "list_ex (\<lambda>i. in_item i c)
     [Rng CHR ''a'' CHR ''z'', Rng CHR ''A'' CHR ''Z'', Rng CHR ''0'' CHR ''9'',
      Chr CHR ''.'', Chr CHR ''_'', Chr CHR ''%'', Chr CHR ''+'', Chr CHR ''-''] = local_char c"
  by (auto simp: local_char_def is_letter_def is_decimal_def)

lemma domain_class:
  "list_ex (\<lambda>i. in_item i c)
     [Rng CHR ''a'' CHR ''z'', Rng CHR ''A'' CHR ''Z'', Rng CHR ''0'' CHR ''9'',
      Chr CHR ''.'', Chr CHR ''-''] = domain_char c"
  by (auto simp: domain_char_def is_letter_def is_decimal_def)

lemma letter_class:
  "list_ex (\<lambda>i. in_item i c) [Rng CHR ''a'' CHR ''z'', Rng CHR ''A'' CHR ''Z''] = is_letter c"
  by (auto simp: is_letter_def)

lemma matches_email_pattern:
  "matches email_pattern e =
     (\<exists>l d t. e = l @ CHR ''@'' # d @ CHR ''.'' # t
        \<and> l \<noteq> [] \<and> list_all local_char l
        \<and> d \<noteq> [] \<and> list_all domain_char d
        \<and> 2 \<le> length t \<and> list_all is_letter t)"
  unfolding email_pattern_def matches_Cat matches_plus_Class matches_at_least_2_Class matches_Lit
    local_class domain_class letter_class
proof (rule iffI)
  assume "\<exists>u v. e = u @ v \<and> (u \<noteq> [] \<and> list_all local_char u) \<and>
           (\<exists>ua va. v = ua @ va \<and> ua = [CHR ''@''] \<and>
             (\<exists>u v. va = u @ v \<and> (u \<noteq> [] \<and> list_all domain_char u) \<and>
               (\<exists>ua va. v = ua @ va \<and> ua = [CHR ''.''] \<and> 2 \<le> length va \<and> list_all is_letter va)))"
  then show "\<exists>l d t. e = l @ CHR ''@'' # d @ CHR ''.'' # t \<and> l \<noteq> [] \<and> list_all local_char l \<and>
           d \<noteq> [] \<and> list_all domain_char d \<and> 2 \<le> length t \<and> list_all is_letter t"
    by auto
next
  assume "\<exists>l d t. e = l @ CHR ''@'' # d @ CHR ''.'' # t \<and> l \<noteq> [] \<and> list_all local_char l \<and>
           d \<noteq> [] \<and> list_all domain_char d \<and> 2 \<le> length t \<and> list_all is_letter t"
  then obtain l d t where h: "e = l @ CHR ''@'' # d @ CHR ''.'' # t" "l \<noteq> []" "list_all local_char l"
           "d \<noteq> []" "list_all domain_char d" "2 \<le> length t" "list_all is_letter t"
    by blast
  have 1: "\<exists>ua va. CHR ''.'' # t = ua @ va \<and> ua = [CHR ''.''] \<and> 2 \<le> length va \<and> list_all is_letter va"
    using h by simp
  have 2: "\<exists>u v. d @ CHR ''.'' # t = u @ v \<and> (u \<noteq> [] \<and> list_all domain_char u) \<and>
               (\<exists>ua va. v = ua @ va \<and> ua = [CHR ''.''] \<and> 2 \<le> length va \<and> list_all is_letter va)"
    using h 1 by blast
  have 3: "\<exists>ua va. CHR ''@'' # d @ CHR ''.'' # t = ua @ va \<and> ua = [CHR ''@''] \<and>
             (\<exists>u v. va = u @ v \<and> (u \<noteq> [] \<and> list_all domain_char u) \<and>
               (\<exists>ua va. v = ua @ va \<and> ua = [CHR ''.''] \<and> 2 \<le> length va \<and> list_all is_letter va))"
    using 2 by simp
  show "\<exists>u v. e = u @ v \<and> (u \<noteq> [] \<and> list_all local_char u) \<and>
           (\<exists>ua va. v = ua @ va \<and> ua = [CHR ''@''] \<and>
             (\<exists>u v. va = u @ v \<and> (u \<noteq> [] \<and> list_all domain_char u) \<and>
               (\<exists>ua va. v = ua @ va \<and> ua = [CHR ''.''] \<and> 2 \<le> length va \<and> list_all is_letter va)))"
    using h(1,2,3) 3 by blast
qed


lemma split_at_first:
  "x \<in> set xs \<Longrightarrow>
   xs = takeWhile (\<lambda>c. c \<noteq> x) xs @ x # drop (Suc (length (takeWhile (\<lambda>c. c \<noteq> x) xs))) xs"
  by (induction xs) auto

lemma first_split_unique:
  "x \<notin> set l \<Longrightarrow> takeWhile (\<lambda>c. c \<noteq> x) (l @ x # r) = l"
  by (induction l) auto

lemma split_at_last_dot:
  assumes "CHR ''.'' \<in> set s"
  shows "s = before_last_dot s @ CHR ''.'' # last_label s"
proof -
  have "CHR ''.'' \<in> set (rev s)" using assms by simp
  from split_at_first [OF this]
  have "rev (rev s) = rev (takeWhile (\<lambda>c. c \<noteq> CHR ''.'') (rev s) @ CHR ''.'' #
          drop (Suc (length (takeWhile (\<lambda>c. c \<noteq> CHR ''.'') (rev s)))) (rev s))"
    by simp
  then show ?thesis
    by (simp add: before_last_dot_def last_label_def)
qed

lemma last_dot_unique:
  assumes "CHR ''.'' \<notin> set t"
  shows "last_label (d @ CHR ''.'' # t) = t" and "before_last_dot (d @ CHR ''.'' # t) = d"
proof -
  have "CHR ''.'' \<notin> set (rev t)" using assms by simp
  then have tw: "takeWhile (\<lambda>c. c \<noteq> CHR ''.'') (rev t @ CHR ''.'' # rev d) = rev t"
    by (rule first_split_unique)
  show l: "last_label (d @ CHR ''.'' # t) = t"
    by (simp add: last_label_def tw)
  show "before_last_dot (d @ CHR ''.'' # t) = d"
    unfolding before_last_dot_def l by simp
qed

lemma not_local_at: "\<not> local_char CHR ''@''"
  by (simp add: local_char_def is_letter_def is_decimal_def)

lemma not_letter_dot: "\<not> is_letter CHR ''.''"
  by (simp add: is_letter_def)

lemma matches_email_stated: "matches email_pattern e = stated_email e"
proof
  assume "matches email_pattern e"
  then obtain l d t where h: "e = l @ CHR ''@'' # d @ CHR ''.'' # t" "l \<noteq> []" "list_all local_char l"
           "d \<noteq> []" "list_all domain_char d" "2 \<le> length t" "list_all is_letter t"
    unfolding matches_email_pattern by blast
  have "CHR ''@'' \<notin> set l"
    using h(3) not_local_at by (auto simp: list_all_iff)
  then have tw: "takeWhile (\<lambda>c. c \<noteq> CHR ''@'') e = l"
    unfolding h(1) by (rule first_split_unique)
  have dr: "drop (Suc (length l)) e = d @ CHR ''.'' # t"
    unfolding h(1) by simp
  have "CHR ''.'' \<notin> set t"
    using h(7) not_letter_dot by (auto simp: list_all_iff)
  note u = last_dot_unique [OF this, of d]
  show "stated_email e"
    unfolding stated_email_def Let_def tw dr u using h by simp
next
  assume s: "stated_email e"
  let ?l = "takeWhile (\<lambda>c. c \<noteq> CHR ''@'') e"
  let ?dm = "drop (Suc (length ?l)) e"
  from s have at: "CHR ''@'' \<in> set e" and dot: "CHR ''.'' \<in> set ?dm"
    and rest: "?l \<noteq> []" "list_all local_char ?l"
      "before_last_dot ?dm \<noteq> []" "list_all domain_char (before_last_dot ?dm)"
      "2 \<le> length (last_label ?dm)" "list_all is_letter (last_label ?dm)"
    unfolding stated_email_def Let_def by simp_all
  have "e = ?l @ CHR ''@'' # ?dm"
    using split_at_first [OF at] .
  also have "?dm = before_last_dot ?dm @ CHR ''.'' # last_label ?dm"
    using split_at_last_dot [OF dot] .
  finally have "e = ?l @ CHR ''@'' # before_last_dot ?dm @ CHR ''.'' # last_label ?dm" .
  with rest show "matches email_pattern e"
    unfolding matches_email_pattern by blast
qed

lemma re_match_no_newline:
  "e = [] \<or> last e \<noteq> CHR 0x0A \<Longrightarrow> re_match r e = matches r e"
  by (auto simp: re_match_def)

lemma strip_last: "py_strip s \<noteq> [] \<Longrightarrow> \<not> isspace (last (py_strip s))"
  unfolding py_strip_def by (simp add: last_rev hd_dropWhile)

lemma lower_char_newline: "lower_char c = CHR 0x0A \<Longrightarrow> c = CHR 0x0A"
proof (rule ccontr)
  assume a: "lower_char c = CHR 0x0A" and n: "c \<noteq> CHR 0x0A"
  then have ch: "(CHR ''A'' \<le> c \<and> c \<le> CHR ''Z'') \<or> (CHR 0xC0 \<le> c \<and> c \<le> CHR 0xDE \<and> c \<noteq> CHR 0xD7)"
    and eq: "char_of (of_char c + (32::nat)) = CHR 0x0A"
    by (auto simp: lower_char_def split: if_splits)
  from ch have "(of_char c :: nat) \<le> 222"
    by (auto simp: less_eq_char_def)
  moreover from eq have "(of_char (char_of (of_char c + (32::nat)) :: char) :: nat) = of_char (CHR 0x0A)"
    by simp
  then have "(of_char c + (32::nat)) mod 256 = 10"
    by simp
  ultimately show False by simp
qed

lemma email_no_newline:
  "py_lower (py_strip s) = [] \<or> last (py_lower (py_strip s)) \<noteq> CHR 0x0A"
proof (cases "py_strip s = []")
  case True
  then show ?thesis by (simp add: py_lower_def)
next
  case False
  then have "\<not> isspace (last (py_strip s))" by (rule strip_last)
  then have "last (py_strip s) \<noteq> CHR 0x0A" by (auto simp: isspace_def)
  then have "lower_char (last (py_strip s)) \<noteq> CHR 0x0A"
    using lower_char_newline by blast
  with False show ?thesis by (simp add: py_lower_def last_map)
qed

lemma stated_email_nonempty: "\<not> stated_email []"
  by (simp add: stated_email_def)

lemma email_step_str:
  "email_step (VStr E) e =
     Inr (if py_lower (py_strip E) = [] then dict_set e ''email'' ''Email is required''
          else if \<not> stated_email (py_lower (py_strip E))
          then dict_set e ''email'' ''Must be a valid email format''
          else e)"
  by (simp add: email_step_def bind_exn_simps Let_def
        re_match_no_newline [OF email_no_newline] matches_email_stated)

lemma auth_email_entry:
  assumes "validate_auth_data (VDict kvs) is_login = Inr errs"
      and "field_or_empty kvs ''email'' = VStr E"
  shows "map_of errs ''email'' =
           (if py_lower (py_strip E) = [] then Some ''Email is required''
            else if \<not> stated_email (py_lower (py_strip E)) then Some ''Must be a valid email format''
            else None)"
proof -
  from assms(1) obtain e1 e2 where
    s1: "if is_login then e1 = [] else name_step (field_or_empty kvs ''name'') [] = Inr e1" and
    s2: "email_step (field_or_empty kvs ''email'') e1 = Inr e2" and
    s3: "password_step (field_or_empty kvs ''password'') e2 = Inr errs"
    unfolding validate_auth_data_steps by blast
  have "map_of e1 ''email'' = None"
    using s1 name_step_frame [of "field_or_empty kvs ''name''" "[]" e1 "''email''"]
    by (cases is_login) simp_all
  then have "map_of e2 ''email'' =
           (if py_lower (py_strip E) = [] then Some ''Email is required''
            else if \<not> stated_email (py_lower (py_strip E)) then Some ''Must be a valid email format''
            else None)"
    using s2 unfolding assms(2) email_step_str by (auto simp: map_of_dict_set)
  moreover have "map_of errs ''email'' = map_of e2 ''email''"
    using password_step_frame [OF s3, of "''email''"] by simp
  ultimately show ?thesis by simp
qed

lemma registration_email_entry:
  assumes "validate_registration_data (VDict kvs) = Inr errs"
      and "field_or_empty kvs ''email'' = VStr E"
  shows "map_of errs ''email'' =
           (if py_lower (py_strip E) = [] then Some ''Email is required''
            else if \<not> stated_email (py_lower (py_strip E)) then Some ''Must be a valid email format''
            else None)"
proof -
  from assms(1) obtain e1 e2 e3 e4 where
    s1: "full_name_step (field_or_empty kvs ''fullName'') [] = Inr e1" and
    s2: "email_step (field_or_empty kvs ''email'') e1 = Inr e2" and
    s3: "phone_step (field_or_empty kvs ''phone'') e2 = Inr e3" and
    s4: "password_step (field_or_empty kvs ''password'') e3 = Inr e4" and
    s5: "errs = confirm_password_step (field_or_empty kvs ''password'')
                    (field_or_empty kvs ''confirmPassword'') e4"
    unfolding validate_registration_data_steps by blast
  have "map_of e1 ''email'' = None"
    using full_name_step_frame [OF s1, of "''email''"] by simp
  then have "map_of e2 ''email'' =
           (if py_lower (py_strip E) = [] then Some ''Email is required''
            else if \<not> stated_email (py_lower (py_strip E)) then Some ''Must be a valid email format''
            else None)"
    using s2 unfolding assms(2) email_step_str by (auto simp: map_of_dict_set)
  moreover have "map_of e3 ''email'' = map_of e2 ''email''"
    using phone_step_frame [OF s3, of "''email''"] by simp
  moreover have "map_of e4 ''email'' = map_of e3 ''email''"
    using password_step_frame [OF s4, of "''email''"] by simp
  moreover have "map_of errs ''email'' = map_of e4 ''email''"
    unfolding s5 by (rule confirm_password_step_frame) simp
  ultimately show ?thesis by simp
qed

section \<open>The auth gate on a header\<close>

lemma py_split_nonempty: "py_split sep s \<noteq> []"
  by (induction s) (auto split: list.splits)

lemma py_split_no_sep: "sep \<notin> set s \<Longrightarrow> py_split sep s = [s]"
  by (induction s) auto

lemma py_split_append: "sep \<notin> set a \<Longrightarrow> py_split sep (a @ sep # r) = a # py_split sep r"
  by (induction a) auto

lemma py_split_segment: "w \<in> set (py_split sep s) \<Longrightarrow> sep \<notin> set w"
  by (induction s arbitrary: w) (auto split: if_splits list.splits)


lemma py_split_bearer:
  assumes "py_split CHR '' '' h = a # tok # rest"
  shows "py_split CHR '' '' (''Bearer '' @ tok) = [''Bearer'', tok]" and "h \<noteq> []"
proof -
  have "tok \<in> set (py_split CHR '' '' h)" using assms by simp
  then have "CHR '' '' \<notin> set tok" by (rule py_split_segment)
  then have "py_split CHR '' '' tok = [tok]" by (rule py_split_no_sep)
  moreover have "py_split CHR '' '' (''Bearer'' @ CHR '' '' # tok) = ''Bearer'' # py_split CHR '' '' tok"
    by (rule py_split_append) simp
  ultimately show "py_split CHR '' '' (''Bearer '' @ tok) = [''Bearer'', tok]" by simp
  show "h \<noteq> []" using assms by auto
qed

lemma auth_middleware_segment:
  assumes "py_split CHR '' '' h = a # tok # rest"
  shows "auth_middleware l e (Some d) (req\<lparr>authorization := Some h\<rparr>) f =
     (case tok of
        [] \<Rightarrow> (error_response ''Token is missing'' 401, Some d)
      | _ \<Rightarrow>
     (case resolve_token l e d tok of
        Inl ExpiredSignatureError \<Rightarrow> (error_response ''Token has expired'' 401, Some d)
      | Inl InvalidTokenError \<Rightarrow> (error_response ''Token is invalid'' 401, Some d)
      | Inl _ \<Rightarrow> (error_response ''Token validation failed'' 401, Some d)
      | Inr None \<Rightarrow> (error_response ''User not found'' 401, Some d)
      | Inr (Some []) \<Rightarrow> (error_response ''User not found'' 401, Some d)
      | Inr (Some current_user) \<Rightarrow> f (VDict current_user)))"
  using py_split_bearer(2) [OF assms]
  by (cases tok) (simp_all add: auth_middleware_def assms resolve_token_def)

lemma auth_middleware_scheme_ignored:
  assumes "py_split CHR '' '' h = a # tok # rest"
  shows "auth_middleware l e (Some d) (req\<lparr>authorization := Some h\<rparr>) f =
         auth_middleware l e (Some d) (req\<lparr>authorization := Some (''Bearer '' @ tok)\<rparr>) f"
  unfolding auth_middleware_segment [OF assms]
    auth_middleware_segment [OF py_split_bearer(1) [OF assms]] ..

lemma auth_middleware_single_word:
  assumes "h \<noteq> []" "CHR '' '' \<notin> set h"
  shows "auth_middleware l e (Some d) (req\<lparr>authorization := Some h\<rparr>) f =
         (error_response ''Invalid token format'' 401, Some d)"
  using assms by (simp add: auth_middleware_def py_split_no_sep)

lemma auth_middleware_no_header:
  "auth_middleware l e (Some d) (req\<lparr>authorization := None\<rparr>) f =
         (error_response ''Token is missing'' 401, Some d)"
  by (simp add: auth_middleware_def)

section \<open>Issued tokens\<close>







lemma check_password_Inr:
  "check_password l stored given = Inr ok \<longleftrightarrow>
     (\<exists>h s. stored = VStr h \<and> given = VStr s \<and> ok = check_password_hash l h s)"
  by (cases stored; cases given) (auto simp: check_password_def)

lemma py_item_dict: "py_item (VDict kvs) k = Inr w \<longleftrightarrow> map_of kvs k = Some w"
  by (auto split: option.splits)





section \<open>Registering an email twice\<close>












section \<open>Pages of the product listing\<close>

lemma total_pages_ceiling:
  fixes n l :: int
  assumes "0 \<le> n" and "1 \<le> l"
  shows "(n + l - 1) div l = \<lceil>real_of_int n / real_of_int l\<rceil>"
proof -
  have "\<lceil>real_of_int n / real_of_int l\<rceil> = - (- n div l)"
    by (rule ceiling_divide_eq_div)
  also have "\<dots> = (n + l - 1) div l"
  proof (cases "n mod l = 0")
    case True
    then have "l dvd n" by auto
    then obtain q where q: "n = l * q" by (auto simp: dvd_def)
    have "l * q + l - 1 = (l - 1) + l * q" by simp
    then have "(l * q + l - 1) div l = q + (l - 1) div l"
      using assms(2) by (simp only: div_mult_self2)
    then have "(l * q + l - 1) div l = q"
      using assms(2) by (simp add: div_pos_pos_trivial)
    moreover have "- (- (l * q) div l) = q"
    proof -
      have "l \<noteq> 0" using assms(2) by simp
      then have "(l * (- q)) div l = - q"
        by (rule nonzero_mult_div_cancel_left)
      then show ?thesis by simp
    qed
    ultimately show ?thesis unfolding q by simp
  next
    case False
    then have "\<not> l dvd n" by auto
    then have "- n div l = - (n div l) - 1"
      using assms(2) False by (simp add: zdiv_zminus1_eq_if)
    moreover have "(n + l - 1) div l = n div l + 1"
    proof -
      have lp: "0 < l" using assms(2) by simp
      have "0 \<le> n mod l" using lp by (rule pos_mod_sign)
      moreover have "n mod l < l" using lp by (rule pos_mod_bound)
      ultimately have r: "0 < n mod l" "n mod l < l"
        using False by simp_all
      have "n + l - 1 = (n mod l - 1) + l * (n div l + 1)"
        by (simp add: algebra_simps)
      then have "(n + l - 1) div l = (n div l + 1) + (n mod l - 1) div l"
        using assms(2) by (simp only: div_mult_self2)
      then show ?thesis
        using r by (simp add: div_pos_pos_trivial)
    qed
    ultimately show ?thesis by simp
  qed
  finally show ?thesis by simp
qed

lemma present_product_ok:
  assumes "presentable p"
  shows "\<exists>q. present_product l p = Inr q"
  using assms
  by (auto simp: presentable_def present_product_def to_isoformat_def bind_exn_simps Let_def
        map_of_dict_set split: option.splits pyval.splits)

lemma present_products_ok:
  "list_all presentable ps \<Longrightarrow> \<exists>qs. present_products l ps = Inr qs \<and> length qs = length ps"
proof (induction ps)
  case Nil
  then show ?case by simp
next
  case (Cons p ps)
  then obtain q qs where "present_product l p = Inr q" "present_products l ps = Inr qs" "length qs = length ps"
    using present_product_ok [of p l] by auto
  then show ?case by (simp add: bind_exn_simps)
qed


lemma page_len:
  fixes L k :: int and n :: nat
  assumes "0 \<le> k" and "1 \<le> L"
  shows "int (min (nat L) (n - nat k)) = min L (max 0 (int n - k))"
  using assms by (cases "nat k \<le> n") (auto simp: min_def max_def nat_le_iff of_nat_diff)

section \<open>The claims\<close>

text \<open>
  C10. In \<open>validate_registration_data\<close> the third branch of the phone block, the one that
  would report "Phone must contain digits only", is never taken: once the digits left by
  \<open>re.sub(r'\D', '', phone)\<close> number ten or more, \<open>isdigit\<close> holds of them. So whenever the
  validator returns its errors, the entry of \<open>phone\<close> is absent, or the required-field
  message, or the message about 10 to 15 digits.
\<close>

theorem phone_digits_only_unreachable:
  assumes "validate_registration_data data = Inr errs"
  shows "(map_of errs ''phone'' = None
          \<or> map_of errs ''phone'' = Some ''Phone number is required''
          \<or> map_of errs ''phone'' = Some ''Phone must contain 10 to 15 digits only'')
       \<and> (\<forall>p. 10 \<le> length (re_sub_nondigits p) \<longrightarrow> py_isdigit (re_sub_nondigits p))"
proof -
  from assms obtain kvs where "data = VDict kvs"
    unfolding validate_registration_data_steps by blast
  with assms registration_phone_entry [of kvs errs]
  have "map_of errs ''phone'' = None
          \<or> map_of errs ''phone'' = Some ''Phone number is required''
          \<or> map_of errs ''phone'' = Some ''Phone must contain 10 to 15 digits only''"
    by (auto split: if_splits)
  moreover have "\<forall>p. 10 \<le> length (re_sub_nondigits p) \<longrightarrow> py_isdigit (re_sub_nondigits p)"
    by (simp add: isdigit_nondigits)
  ultimately show ?thesis by blast
qed

theorem phone_digits_only_unreachable_witness:
  "validate_registration_data
     (VDict [(''fullName'', VStr ''Ada Byron''), (''email'', VStr ''ada@example.org''),
             (''phone'', VStr ''12345''), (''password'', VStr ''secret1''),
             (''confirmPassword'', VStr ''secret1'')])
   = Inr [(''phone'', ''Phone must contain 10 to 15 digits only'')]
   \<and> map_of [(''phone'', ''Phone must contain 10 to 15 digits only'')] ''phone''
       = Some ''Phone must contain 10 to 15 digits only''
   \<and> py_isdigit (re_sub_nondigits ''123-456-7890'')"
proof -
  have h: "validate_registration_data
     (VDict [(''fullName'', VStr ''Ada Byron''), (''email'', VStr ''ada@example.org''),
             (''phone'', VStr ''12345''), (''password'', VStr ''secret1''),
             (''confirmPassword'', VStr ''secret1'')])
   = Inr [(''phone'', ''Phone must contain 10 to 15 digits only'')]"
    by code_simp
  have l: "10 \<le> length (re_sub_nondigits ''123-456-7890'')"
    by code_simp
  from phone_digits_only_unreachable [OF h] l have "py_isdigit (re_sub_nondigits ''123-456-7890'')"
    by blast
  with h show ?thesis by simp
qed

text \<open>
  C4. Full registration validation accepts a phone string \<open>P\<close> (emits no error for
  \<open>phone\<close>) exactly when \<open>P\<close> is not empty after trimming and the digits of \<open>P\<close>, every
  other character deleted, number between 10 and 15. \<open>123-456-7890\<close> is accepted;
  \<open>12345\<close> and \<open>abcdefghij\<close> are rejected.
\<close>

theorem phone_accepted_iff:
  assumes "validate_registration_data (VDict kvs) = Inr errs"
      and "map_of kvs ''phone'' = Some (VStr P)"
  shows "map_of errs ''phone'' = None \<longleftrightarrow>
           py_strip P \<noteq> [] \<and> 10 \<le> length (filter is_decimal P) \<and> length (filter is_decimal P) \<le> 15"
proof -
  have "field_or_empty kvs ''phone'' = VStr P"
    using assms(2) by (simp add: field_or_empty_def)
  with registration_phone_entry [OF assms(1)] show ?thesis
    by (auto simp: nondigits_strip)
qed

theorem phone_accepted_iff_witness:
  "validate_registration_data
     (VDict [(''fullName'', VStr ''Ada Byron''), (''email'', VStr ''ada@example.org''),
             (''phone'', VStr ''123-456-7890''), (''password'', VStr ''secret1''),
             (''confirmPassword'', VStr ''secret1'')]) = Inr []
   \<and> py_strip ''123-456-7890'' \<noteq> []
   \<and> length (filter is_decimal ''123-456-7890'') = 10
   \<and> validate_registration_data
     (VDict [(''fullName'', VStr ''Ada Byron''), (''email'', VStr ''ada@example.org''),
             (''phone'', VStr ''12345''), (''password'', VStr ''secret1''),
             (''confirmPassword'', VStr ''secret1'')])
       = Inr [(''phone'', ''Phone must contain 10 to 15 digits only'')]
   \<and> validate_registration_data
     (VDict [(''fullName'', VStr ''Ada Byron''), (''email'', VStr ''ada@example.org''),
             (''phone'', VStr ''abcdefghij''), (''password'', VStr ''secret1''),
             (''confirmPassword'', VStr ''secret1'')])
       = Inr [(''phone'', ''Phone must contain 10 to 15 digits only'')]"
proof -
  have h: "validate_registration_data
     (VDict [(''fullName'', VStr ''Ada Byron''), (''email'', VStr ''ada@example.org''),
             (''phone'', VStr ''123-456-7890''), (''password'', VStr ''secret1''),
             (''confirmPassword'', VStr ''secret1'')]) = Inr []"
    by code_simp
  have k: "map_of [(''fullName'', VStr ''Ada Byron''), (''email'', VStr ''ada@example.org''),
             (''phone'', VStr ''123-456-7890''), (''password'', VStr ''secret1''),
             (''confirmPassword'', VStr ''secret1'')] ''phone'' = Some (VStr ''123-456-7890'')"
    by simp
  have n: "length (filter is_decimal ''123-456-7890'') = 10"
    by code_simp
  have r1: "validate_registration_data
     (VDict [(''fullName'', VStr ''Ada Byron''), (''email'', VStr ''ada@example.org''),
             (''phone'', VStr ''12345''), (''password'', VStr ''secret1''),
             (''confirmPassword'', VStr ''secret1'')])
       = Inr [(''phone'', ''Phone must contain 10 to 15 digits only'')]"
    by code_simp
  have r2: "validate_registration_data
     (VDict [(''fullName'', VStr ''Ada Byron''), (''email'', VStr ''ada@example.org''),
             (''phone'', VStr ''abcdefghij''), (''password'', VStr ''secret1''),
             (''confirmPassword'', VStr ''secret1'')])
       = Inr [(''phone'', ''Phone must contain 10 to 15 digits only'')]"
    by code_simp
  from phone_accepted_iff [OF h k] have "py_strip ''123-456-7890'' \<noteq> []"
    by simp
  with h n r1 r2 show ?thesis by blast
qed

text \<open>
  C2, as stated: both validators judge every string field on its trimmed form, the
  password and the confirmation included. The code does not trim these two: a
  confirmation that differs from the password only in surrounding blanks is reported as
  a mismatch, and a three-character password padded with blanks to seven passes the
  length check. On the same inputs with every field trimmed the verdicts are the opposite.
\<close>

theorem passwords_not_trimmed_counterexample:
  "validate_registration_data
     (VDict [(''fullName'', VStr ''Ada Byron''), (''email'', VStr ''ada@example.org''),
             (''phone'', VStr ''123-456-7890''), (''password'', VStr ''secret1''),
             (''confirmPassword'', VStr '' secret1 '')])
     = Inr [(''confirmPassword'', ''Passwords do not match'')]
   \<and> validate_registration_data
     (trim_fields
       (VDict [(''fullName'', VStr ''Ada Byron''), (''email'', VStr ''ada@example.org''),
               (''phone'', VStr ''123-456-7890''), (''password'', VStr ''secret1''),
               (''confirmPassword'', VStr '' secret1 '')]))
     = Inr []
   \<and> validate_auth_data
     (VDict [(''email'', VStr ''ada@example.org''), (''password'', VStr ''  abc  '')]) True
     = Inr []
   \<and> validate_auth_data
     (trim_fields
       (VDict [(''email'', VStr ''ada@example.org''), (''password'', VStr ''  abc  '')])) True
     = Inr [(''password'', ''Password must be at least 6 characters long'')]"
  by code_simp

text \<open>
  C2, amended: both validators trim \<open>name\<close> or \<open>fullName\<close>, \<open>email\<close> and \<open>phone\<close> before
  applying their rules, so their result is the same on an input and on the input with
  these fields trimmed. \<open>password\<close> and \<open>confirmPassword\<close> are taken as given: the length
  check counts the characters of the untrimmed password, and the confirmation is compared
  with the untrimmed password, character for character.
\<close>

theorem validators_trim_all_but_passwords:
  "validate_auth_data (trim_field ''name'' (trim_field ''email'' data)) is_login
     = validate_auth_data data is_login
   \<and> validate_registration_data
       (trim_field ''fullName'' (trim_field ''email'' (trim_field ''phone'' data)))
     = validate_registration_data data
   \<and> (validate_auth_data (VDict kvs) is_login = Inr errs
        \<and> field_or_empty kvs ''password'' = VStr pw \<longrightarrow>
      map_of errs ''password'' =
        (if pw = [] then Some ''Password is required''
         else if length pw < 6 then Some ''Password must be at least 6 characters long''
         else None))
   \<and> (validate_registration_data (VDict kvs') = Inr errs'
        \<and> field_or_empty kvs' ''password'' = VStr pw'
        \<and> field_or_empty kvs' ''confirmPassword'' = VStr cpw \<longrightarrow>
      map_of errs' ''password'' =
        (if pw' = [] then Some ''Password is required''
         else if length pw' < 6 then Some ''Password must be at least 6 characters long''
         else None)
      \<and> map_of errs' ''confirmPassword'' =
        (if cpw = [] then Some ''Confirm Password is required''
         else if pw' \<noteq> cpw then Some ''Passwords do not match''
         else None))"
proof -
  have a: "validate_auth_data (trim_field ''name'' (trim_field ''email'' data)) is_login
     = validate_auth_data data is_login"
    by (simp add: validate_auth_data_trim)
  have b: "validate_registration_data
       (trim_field ''fullName'' (trim_field ''email'' (trim_field ''phone'' data)))
     = validate_registration_data data"
    by (simp add: validate_registration_data_trim)
  show ?thesis
    using a b auth_password_entry [of kvs is_login errs pw]
      registration_password_entries [of kvs' errs' pw' cpw]
    by blast
qed

theorem validators_trim_all_but_passwords_witness:
  "validate_registration_data
     (VDict [(''fullName'', VStr ''Ada Byron''), (''email'', VStr ''ada@example.org''),
             (''phone'', VStr ''123-456-7890''), (''password'', VStr ''secret1''),
             (''confirmPassword'', VStr '' secret1 '')])
     = Inr [(''confirmPassword'', ''Passwords do not match'')]
   \<and> map_of [(''confirmPassword'', ''Passwords do not match'')] ''confirmPassword''
       = (if '' secret1 '' = [] then Some ''Confirm Password is required''
          else if ''secret1'' \<noteq> '' secret1 '' then Some ''Passwords do not match''
          else None)
   \<and> validate_auth_data
       (trim_field ''name'' (trim_field ''email''
          (VDict [(''name'', VStr '' Ada ''), (''email'', VStr '' Ada@Example.org ''),
                  (''password'', VStr ''secret1'')]))) False
     = Inr []"
proof -
  let ?kvs = "[(''fullName'', VStr ''Ada Byron''), (''email'', VStr ''ada@example.org''),
             (''phone'', VStr ''123-456-7890''), (''password'', VStr ''secret1''),
             (''confirmPassword'', VStr '' secret1 '')]"
  let ?d = "VDict [(''name'', VStr '' Ada ''), (''email'', VStr '' Ada@Example.org ''),
                  (''password'', VStr ''secret1'')]"
  have h: "validate_registration_data (VDict ?kvs)
     = Inr [(''confirmPassword'', ''Passwords do not match'')]"
    by code_simp
  have p: "field_or_empty ?kvs ''password'' = VStr ''secret1''"
    by (simp add: field_or_empty_def)
  have c: "field_or_empty ?kvs ''confirmPassword'' = VStr '' secret1 ''"
    by (simp add: field_or_empty_def)
  have v: "validate_auth_data ?d False = Inr []"
    by code_simp
  note t = validators_trim_all_but_passwords
             [of ?d False ?kvs "[]" "[]" ?kvs "[(''confirmPassword'', ''Passwords do not match'')]"
                 "''secret1''" "'' secret1 ''"]
  from t h p c have "map_of [(''confirmPassword'', ''Passwords do not match'')] ''confirmPassword''
       = (if '' secret1 '' = [] then Some ''Confirm Password is required''
          else if ''secret1'' \<noteq> '' secret1 '' then Some ''Passwords do not match''
          else None)"
    by blast
  moreover from t v have "validate_auth_data (trim_field ''name'' (trim_field ''email'' ?d)) False = Inr []"
    by simp
  ultimately show ?thesis using h by blast
qed

text \<open>
  C3, as stated: the validators reject an email exactly when its trimmed, lowercased form
  fails the documented pattern (a non-empty local part of letters, digits and \<open>._%+-\<close>,
  an \<open>@\<close>, a domain containing at least one dot, a TLD of at least two letters).
  \<open>a@b_c.co\<close> meets every condition of that pattern, and both validators reject it: the
  regular expression of the code allows only letters, digits, dots and hyphens in the
  domain.
\<close>

theorem email_rejected_counterexample:
  "validate_auth_data
     (VDict [(''email'', VStr ''a@b_c.co''), (''password'', VStr ''secret1'')]) True
     = Inr [(''email'', ''Must be a valid email format'')]
   \<and> validate_registration_data
     (VDict [(''fullName'', VStr ''Ada Byron''), (''email'', VStr ''a@b_c.co''),
             (''phone'', VStr ''123-456-7890''), (''password'', VStr ''secret1''),
             (''confirmPassword'', VStr ''secret1'')])
     = Inr [(''email'', ''Must be a valid email format'')]
   \<and> documented_email (py_lower (py_strip ''a@b_c.co''))"
  by code_simp

text \<open>
  C3, amended: the validators emit an error for \<open>email\<close> exactly when the trimmed,
  lowercased email fails this pattern: a non-empty local part of letters, digits and
  \<open>._%+-\<close>, an \<open>@\<close>, then one or more letters, digits, dots and hyphens, a dot, and a
  TLD of at least two letters. \<open>a@b.co\<close> is accepted; \<open>a@b\<close> and \<open>@b.com\<close> are rejected.
\<close>

theorem email_rejected_iff:
  "(validate_auth_data (VDict kvs) is_login = Inr errs
      \<and> field_or_empty kvs ''email'' = VStr E \<longrightarrow>
    (map_of errs ''email'' \<noteq> None) = (\<not> stated_email (py_lower (py_strip E))))
   \<and> (validate_registration_data (VDict kvs') = Inr errs'
      \<and> field_or_empty kvs' ''email'' = VStr E' \<longrightarrow>
    (map_of errs' ''email'' \<noteq> None) = (\<not> stated_email (py_lower (py_strip E'))))"
proof -
  have a: "(map_of errs ''email'' \<noteq> None) = (\<not> stated_email (py_lower (py_strip E)))"
    if "validate_auth_data (VDict kvs) is_login = Inr errs" "field_or_empty kvs ''email'' = VStr E"
    using auth_email_entry [OF that] stated_email_nonempty by auto
  have b: "(map_of errs' ''email'' \<noteq> None) = (\<not> stated_email (py_lower (py_strip E')))"
    if "validate_registration_data (VDict kvs') = Inr errs'" "field_or_empty kvs' ''email'' = VStr E'"
    using registration_email_entry [OF that] stated_email_nonempty by auto
  from a b show ?thesis by blast
qed

theorem email_rejected_iff_witness:
  "validate_auth_data
     (VDict [(''email'', VStr ''a@b.co''), (''password'', VStr ''secret1'')]) True = Inr []
   \<and> stated_email (py_lower (py_strip ''a@b.co''))
   \<and> validate_auth_data
     (VDict [(''email'', VStr ''a@b''), (''password'', VStr ''secret1'')]) True
     = Inr [(''email'', ''Must be a valid email format'')]
   \<and> validate_auth_data
     (VDict [(''email'', VStr ''@b.com''), (''password'', VStr ''secret1'')]) True
     = Inr [(''email'', ''Must be a valid email format'')]"
proof -
  let ?kvs = "[(''email'', VStr ''a@b.co''), (''password'', VStr ''secret1'')]"
  have h: "validate_auth_data (VDict ?kvs) True = Inr []" by code_simp
  have f: "field_or_empty ?kvs ''email'' = VStr ''a@b.co''" by (simp add: field_or_empty_def)
  have r1: "validate_auth_data
     (VDict [(''email'', VStr ''a@b''), (''password'', VStr ''secret1'')]) True
     = Inr [(''email'', ''Must be a valid email format'')]" by code_simp
  have r2: "validate_auth_data
     (VDict [(''email'', VStr ''@b.com''), (''password'', VStr ''secret1'')]) True
     = Inr [(''email'', ''Must be a valid email format'')]" by code_simp
  from email_rejected_iff [of ?kvs True "[]" "''a@b.co''" "[]" "[]" "''x''"] h f
  have "stated_email (py_lower (py_strip ''a@b.co''))" by simp
  with h r1 r2 show ?thesis by blast
qed

text \<open>
  C1, as stated: a header whose scheme segment is not \<open>Bearer\<close> is rejected with the 401
  of a malformed header, even when its token segment is a valid token. The gate never
  compares the scheme: \<open>Basic tok1\<close>, where \<open>tok1\<close> is a validly signed, unexpired token
  of a stored user, passes, and the wrapped operation is given that user.
\<close>

theorem scheme_not_checked_counterexample:
  "auth_middleware demo_lib demo_env (Some demo_db) (bearer ''Basic tok1'')
     (\<lambda>current_user. (Response current_user 200, None))
   = (Response (VDict demo_user) 200, None)"
  by code_simp

text \<open>
  C1, amended: when the credential store is available (without it the gate answers 503
  before it looks at the header), a header that is present, non-empty and has no space
  (a single word) is rejected with the 401 "Invalid token format", and the wrapped
  operation is not reached. A header of two or more space-separated segments is treated
  by its second segment alone, whatever its first segment is: the gate does on it exactly
  what it does on \<open>Bearer\<close> followed by that segment. In particular, when that segment is
  a token that decodes (validly signed, unexpired) to a well-formed \<open>user_id\<close> of a
  stored user, the wrapped operation is called with that user, under \<open>Basic\<close> or any
  other first segment as under \<open>Bearer\<close>.
\<close>

theorem malformed_header:
  "auth_middleware l e None req f = (error_response ''Database unavailable'' 503, None)
   \<and> (h \<noteq> [] \<and> CHR '' '' \<notin> set h \<longrightarrow>
      auth_middleware l e (Some d) (req\<lparr>authorization := Some h\<rparr>) f
        = (error_response ''Invalid token format'' 401, Some d))
   \<and> (py_split CHR '' '' h' = a # tok # rest \<longrightarrow>
      auth_middleware l e (Some d) (req\<lparr>authorization := Some h'\<rparr>) f
        = auth_middleware l e (Some d) (req\<lparr>authorization := Some (''Bearer '' @ tok)\<rparr>) f)
   \<and> (py_split CHR '' '' h' = a # tok # rest \<and> tok \<noteq> []
        \<and> jwt_decode l tok (SECRET_KEY e) (utcnow e) = Inr claims
        \<and> py_item claims ''user_id'' = Inr (VStr uid) \<and> valid_object_id uid
        \<and> find_one (users_collection d) ''_id'' (VObjectId (py_lower uid)) = Some u \<and> u \<noteq> [] \<longrightarrow>
      auth_middleware l e (Some d) (req\<lparr>authorization := Some h'\<rparr>) f = f (VDict u)
      \<and> auth_middleware l e (Some d) (req\<lparr>authorization := Some (''Bearer '' @ tok)\<rparr>) f = f (VDict u))"
proof -
  have 0: "auth_middleware l e None req f = (error_response ''Database unavailable'' 503, None)"
    by (simp add: auth_middleware_def)
  have 1: "auth_middleware l e (Some d) (req\<lparr>authorization := Some h'\<rparr>) f = f (VDict u)"
    if s: "py_split CHR '' '' h' = a # tok # rest" and t: "tok \<noteq> []"
      and dec: "jwt_decode l tok (SECRET_KEY e) (utcnow e) = Inr claims"
      and c: "py_item claims ''user_id'' = Inr (VStr uid)" "valid_object_id uid"
      and fo: "find_one (users_collection d) ''_id'' (VObjectId (py_lower uid)) = Some u" and u: "u \<noteq> []"
    for h' a rest
  proof -
    obtain x xs where tok: "tok = x # xs" using t by (cases tok) auto
    obtain y ys where uu: "u = y # ys" using u by (cases u) auto
    have r: "resolve_token l e d tok = Inr (Some u)"
      using dec c fo by (simp add: resolve_token_def bind_exn_simps)
    show ?thesis
      unfolding auth_middleware_segment [OF s] r using tok uu by simp
  qed
  have 2: "auth_middleware l e (Some d) (req\<lparr>authorization := Some (''Bearer '' @ tok)\<rparr>) f = f (VDict u)"
    if s: "py_split CHR '' '' h' = a # tok # rest" and t: "tok \<noteq> []"
      and dec: "jwt_decode l tok (SECRET_KEY e) (utcnow e) = Inr claims"
      and c: "py_item claims ''user_id'' = Inr (VStr uid)" "valid_object_id uid"
      and fo: "find_one (users_collection d) ''_id'' (VObjectId (py_lower uid)) = Some u" and u: "u \<noteq> []"
    using 1 [OF py_split_bearer(1) [OF s] t dec c fo u] .
  show ?thesis
    using 0 1 [of h' a rest] 2 auth_middleware_single_word [of h l e d req f]
      auth_middleware_scheme_ignored [of h' a tok rest l e d req f]
    by blast
qed

theorem malformed_header_witness:
  "auth_middleware demo_lib demo_env (Some demo_db) (bearer ''Bearer'') (\<lambda>u. (Response u 200, None))
     = (error_response ''Invalid token format'' 401, Some demo_db)
   \<and> py_split CHR '' '' ''Basic tok1'' = [''Basic'', ''tok1'']
   \<and> jwt_decode demo_lib ''tok1'' (SECRET_KEY demo_env) (utcnow demo_env)
       = Inr (demo_claims ''64b0c0ffee64b0c0ffee0001'')
   \<and> valid_object_id ''64b0c0ffee64b0c0ffee0001''
   \<and> find_one (users_collection demo_db) ''_id'' (VObjectId (py_lower ''64b0c0ffee64b0c0ffee0001''))
       = Some demo_user
   \<and> auth_middleware demo_lib demo_env (Some demo_db) (bearer ''Basic tok1'') (\<lambda>u. (Response u 200, None))
       = (Response (VDict demo_user) 200, None)
   \<and> auth_middleware demo_lib demo_env (Some demo_db) (bearer ''Bearer tok1'') (\<lambda>u. (Response u 200, None))
       = (Response (VDict demo_user) 200, None)
   \<and> auth_middleware demo_lib demo_env None (bearer ''Bearer tok1'') (\<lambda>u. (Response u 200, None))
       = (error_response ''Database unavailable'' 503, None)"
proof -
  have s: "py_split CHR '' '' ''Basic tok1'' = [''Basic'', ''tok1'']" by code_simp
  have w: "''Bearer'' \<noteq> [] \<and> CHR '' '' \<notin> set ''Bearer''" by simp
  have t: "''tok1'' \<noteq> []" by simp
  have dec: "jwt_decode demo_lib ''tok1'' (SECRET_KEY demo_env) (utcnow demo_env)
       = Inr (demo_claims ''64b0c0ffee64b0c0ffee0001'')" by code_simp
  have c: "py_item (demo_claims ''64b0c0ffee64b0c0ffee0001'') ''user_id'' = Inr (VStr ''64b0c0ffee64b0c0ffee0001'')"
    by (simp add: demo_claims_def)
  have v: "valid_object_id ''64b0c0ffee64b0c0ffee0001''" by code_simp
  have fo: "find_one (users_collection demo_db) ''_id'' (VObjectId (py_lower ''64b0c0ffee64b0c0ffee0001''))
       = Some demo_user" by code_simp
  have u: "demo_user \<noteq> []" by (simp add: demo_user_def)
  have b: "(bearer ''Bearer tok1'')\<lparr>authorization := Some x\<rparr> = bearer x" for x by (simp add: bearer_def)
  note th = malformed_header [of demo_lib demo_env "bearer ''Bearer tok1''" "\<lambda>u. (Response u 200, None)"
             "''Bearer''" demo_db "''Basic tok1''" "''Basic''" "''tok1''" "[]"
             "demo_claims ''64b0c0ffee64b0c0ffee0001''" "''64b0c0ffee64b0c0ffee0001''" demo_user,
             unfolded b]
  have e: "''Bearer '' @ ''tok1'' = ''Bearer tok1''" by simp
  from th w s t dec c v fo u show ?thesis unfolding e by simp
qed

text \<open>
  C8. A request whose header carries, as its second segment, a token that decodes (validly
  signed, unexpired) to claims whose \<open>user_id\<close> is a well-formed identifier no stored user
  has, is rejected with the 401 "User not found", whatever the wrapped operation is.
  That response differs from the four other 401 rejections of the gate: no header
  ("Token is missing"), a one-word header ("Invalid token format"), an invalid token
  ("Token is invalid") and an expired one ("Token has expired").
\<close>

theorem deleted_user_rejected:
  assumes "py_split CHR '' '' h = a # tok # rest" and "tok \<noteq> []"
      and "jwt_decode l tok (SECRET_KEY e) (utcnow e) = Inr claims"
      and "py_item claims ''user_id'' = Inr (VStr uid)" and "valid_object_id uid"
      and "find_one (users_collection d) ''_id'' (VObjectId (py_lower uid)) = None"
  shows "auth_middleware l e (Some d) (req\<lparr>authorization := Some h\<rparr>) f
           = (error_response ''User not found'' 401, Some d)
       \<and> auth_middleware l e (Some d) (req\<lparr>authorization := None\<rparr>) f
           = (error_response ''Token is missing'' 401, Some d)
       \<and> auth_middleware l e (Some d) (req\<lparr>authorization := Some ''Bearer''\<rparr>) f
           = (error_response ''Invalid token format'' 401, Some d)
       \<and> (jwt_decode l tok (SECRET_KEY e') (utcnow e') = Inl InvalidTokenError \<longrightarrow>
            auth_middleware l e' (Some d) (req\<lparr>authorization := Some h\<rparr>) f
              = (error_response ''Token is invalid'' 401, Some d))
       \<and> (jwt_decode l tok (SECRET_KEY e') (utcnow e') = Inl ExpiredSignatureError \<longrightarrow>
            auth_middleware l e' (Some d) (req\<lparr>authorization := Some h\<rparr>) f
              = (error_response ''Token has expired'' 401, Some d))
       \<and> error_response ''User not found'' 401 \<noteq> error_response ''Token is missing'' 401
       \<and> error_response ''User not found'' 401 \<noteq> error_response ''Invalid token format'' 401
       \<and> error_response ''User not found'' 401 \<noteq> error_response ''Token is invalid'' 401
       \<and> error_response ''User not found'' 401 \<noteq> error_response ''Token has expired'' 401"
proof -
  obtain c cs where tok: "tok = c # cs" using assms(2) by (cases tok) auto
  have r: "resolve_token l e d tok = Inr None"
    using assms(3-6) by (simp add: resolve_token_def bind_exn_simps)
  have 1: "auth_middleware l e (Some d) (req\<lparr>authorization := Some h\<rparr>) f
           = (error_response ''User not found'' 401, Some d)"
    unfolding auth_middleware_segment [OF assms(1)] r using tok by simp
  have 2: "auth_middleware l e (Some d) (req\<lparr>authorization := Some ''Bearer''\<rparr>) f
           = (error_response ''Invalid token format'' 401, Some d)"
    by (rule auth_middleware_single_word) simp_all
  have 3: "auth_middleware l e' (Some d) (req\<lparr>authorization := Some h\<rparr>) f
              = (error_response ''Token is invalid'' 401, Some d)"
    if "jwt_decode l tok (SECRET_KEY e') (utcnow e') = Inl InvalidTokenError"
    unfolding auth_middleware_segment [OF assms(1)] using tok that
    by (simp add: resolve_token_def bind_exn_simps)
  have 4: "auth_middleware l e' (Some d) (req\<lparr>authorization := Some h\<rparr>) f
              = (error_response ''Token has expired'' 401, Some d)"
    if "jwt_decode l tok (SECRET_KEY e') (utcnow e') = Inl ExpiredSignatureError"
    unfolding auth_middleware_segment [OF assms(1)] using tok that
    by (simp add: resolve_token_def bind_exn_simps)
  have 5: "error_response ''User not found'' 401 \<noteq> error_response ''Token is missing'' 401"
    "error_response ''User not found'' 401 \<noteq> error_response ''Invalid token format'' 401"
    "error_response ''User not found'' 401 \<noteq> error_response ''Token is invalid'' 401"
    "error_response ''User not found'' 401 \<noteq> error_response ''Token has expired'' 401"
    by (simp_all add: error_response_def)
  from 1 2 3 4 5 auth_middleware_no_header [of l e d req f] show ?thesis by blast
qed

theorem deleted_user_rejected_witness:
  "py_split CHR '' '' ''Bearer tok2'' = [''Bearer'', ''tok2'']
   \<and> jwt_decode demo_lib ''tok2'' (SECRET_KEY demo_env) (utcnow demo_env)
       = Inr (demo_claims ''64b0c0ffee64b0c0ffee0002'')
   \<and> valid_object_id ''64b0c0ffee64b0c0ffee0002''
   \<and> find_one (users_collection demo_db) ''_id'' (VObjectId (py_lower ''64b0c0ffee64b0c0ffee0002'')) = None
   \<and> auth_middleware demo_lib demo_env (Some demo_db) (bearer ''Bearer tok2'') (\<lambda>u. (Response u 200, None))
       = (error_response ''User not found'' 401, Some demo_db)"
proof -
  have 1: "py_split CHR '' '' ''Bearer tok2'' = [''Bearer'', ''tok2'']" by code_simp
  have 2: "''tok2'' \<noteq> []" by simp
  have 3: "jwt_decode demo_lib ''tok2'' (SECRET_KEY demo_env) (utcnow demo_env)
       = Inr (demo_claims ''64b0c0ffee64b0c0ffee0002'')" by code_simp
  have 4: "py_item (demo_claims ''64b0c0ffee64b0c0ffee0002'') ''user_id'' = Inr (VStr ''64b0c0ffee64b0c0ffee0002'')"
    by (simp add: demo_claims_def)
  have 5: "valid_object_id ''64b0c0ffee64b0c0ffee0002''" by code_simp
  have 6: "find_one (users_collection demo_db) ''_id'' (VObjectId (py_lower ''64b0c0ffee64b0c0ffee0002'')) = None"
    by code_simp
  have c: "(bearer ''x'')\<lparr>authorization := Some y\<rparr> = bearer y" for y by (simp add: bearer_def)
  from deleted_user_rejected [OF 1 2 3 4 5 6, of "bearer ''x''" "\<lambda>u. (Response u 200, None)" demo_env]
  have "auth_middleware demo_lib demo_env (Some demo_db) (bearer ''Bearer tok2'') (\<lambda>u. (Response u 200, None))
       = (error_response ''User not found'' 401, Some demo_db)"
    unfolding c by blast
  with 1 3 5 6 show ?thesis by blast
qed






text \<open>
  C9. A product listing with page \<open>p \<ge> 1\<close> and limit \<open>L\<close> between 1 and 100, over a store
  whose filter selects \<open>N\<close> products, answers 200 with \<open>min(L, max(0, N - (p-1)L))\<close>
  items, \<open>totalPages\<close> the ceiling of \<open>N/L\<close>, \<open>hasNext\<close> true exactly when \<open>p\<close> is less
  than \<open>totalPages\<close>, and \<open>hasPrev\<close> true exactly when \<open>p > 1\<close>. The sort of the store
  is taken to permute its input, and the stored products to be as the program stores
  them. With \<open>N = 12\<close>, \<open>p = 2\<close>, \<open>L = 5\<close>: five items, three pages, a next and a
  previous page.
\<close>

theorem product_listing_page:
  assumes "int_arg l req ''page'' 1 = Inr p" and "1 \<le> p"
      and "int_arg l req ''limit'' 10 = Inr L" and "1 \<le> L" and "L \<le> 100"
      and "\<forall>c xs. length (cursor_sort l c xs) = length xs \<and> set (cursor_sort l c xs) = set xs"
      and "list_all presentable (products_collection d)"
      and "N = int (length (matching_products l req d))"
  shows "\<exists>items body.
           get_products_try l e d req = Inr (Response body 200, d)
         \<and> get_products l e (Some d) req
             = auth_middleware l e (Some d) req (\<lambda>current_user. (Response body 200, Some d))
         \<and> py_item body ''products'' = Inr (VList items)
         \<and> int (length items) = min L (max 0 (N - (p - 1) * L))
         \<and> py_item body ''pagination'' =
             Inr (VDict [(''currentPage'', VInt p),
                         (''totalPages'', VInt \<lceil>real_of_int N / real_of_int L\<rceil>),
                         (''totalItems'', VInt N),
                         (''itemsPerPage'', VInt L),
                         (''hasNext'', VBool (p < \<lceil>real_of_int N / real_of_int L\<rceil>)),
                         (''hasPrev'', VBool (p > 1))])"
proof -
  define m where "m = matching_products l req d"
  define crit where "crit =
           (case str_arg req ''sort'' ''-createdAt'' of
              [] \<Rightarrow> []
            | c # field \<Rightarrow> if c = CHR ''-'' then [(field, - 1)]
                            else [(str_arg req ''sort'' ''-createdAt'', 1::int)])"
  define sorted where "sorted = (if crit \<noteq> [] then cursor_sort l crit m else m)"
  define k where "k = (p - 1) * L"
  define cur where "cur = take (nat L) (drop (nat k) sorted)"
  have len: "length sorted = length m" and sub: "set sorted \<subseteq> set m"
    using assms(6) by (auto simp: sorted_def)
  have "set m \<subseteq> set (products_collection d)"
    by (auto simp: m_def matching_products_def)
  moreover have "set cur \<subseteq> set sorted"
    unfolding cur_def by (meson set_take_subset set_drop_subset subset_trans)
  ultimately have "list_all presentable cur"
    using assms(7) sub by (auto simp: list_all_iff)
  from present_products_ok [OF this, of l] obtain qs where
    qs: "present_products l cur = Inr qs" "length qs = length cur" by blast
  have k0: "0 \<le> k" using assms(2,4) by (simp add: k_def)
  have "length cur = min (nat L) (length m - nat k)"
    by (simp add: cur_def len)
  then have lc: "int (length qs) = min L (max 0 (N - k))"
    unfolding qs(2) assms(8) m_def using page_len [OF k0 assms(4)] by simp
  have tp: "(N + L - 1) div L = \<lceil>real_of_int N / real_of_int L\<rceil>"
    by (rule total_pages_ceiling) (simp_all add: assms(4,8))
  have run: "get_products_try l e d req =
     bind_exn (present_products l cur) (\<lambda>products.
       Inr (Response (VDict [(''message'', VStr ''Products retrieved successfully''),
                           (''products'', VList (map VDict products)),
                           (''pagination'',
                            VDict [(''currentPage'', VInt p),
                                   (''totalPages'', VInt ((N + L - 1) div L)),
                                   (''totalItems'', VInt N),
                                   (''itemsPerPage'', VInt L),
                                   (''hasNext'', VBool (p < (N + L - 1) div L)),
                                   (''hasPrev'', VBool (p > 1))]),
                           (''filters'',
                            VDict [(''keyword'', VStr (str_arg req ''keyword'' [])),
                                   (''sort'', VStr (str_arg req ''sort'' ''-createdAt''))])]) 200,
          d))"
    using assms(2,4,5)
    by (simp add: get_products_try_def assms(1,3,8) bind_exn_simps Let_def cur_def sorted_def
          crit_def m_def k_def matching_products_def)
  let ?body = "VDict [(''message'', VStr ''Products retrieved successfully''),
                           (''products'', VList (map VDict qs)),
                           (''pagination'',
                            VDict [(''currentPage'', VInt p),
                                   (''totalPages'', VInt \<lceil>real_of_int N / real_of_int L\<rceil>),
                                   (''totalItems'', VInt N),
                                   (''itemsPerPage'', VInt L),
                                   (''hasNext'', VBool (p < \<lceil>real_of_int N / real_of_int L\<rceil>)),
                                   (''hasPrev'', VBool (p > 1))]),
                           (''filters'',
                            VDict [(''keyword'', VStr (str_arg req ''keyword'' [])),
                                   (''sort'', VStr (str_arg req ''sort'' ''-createdAt''))])]"
  have r: "get_products_try l e d req = Inr (Response ?body 200, d)"
    unfolding run qs(1) tp by (simp add: bind_exn_simps)
  have g: "get_products l e (Some d) req
             = auth_middleware l e (Some d) req (\<lambda>current_user. (Response ?body 200, Some d))"
    by (simp add: get_products_def r)
  have i: "py_item ?body ''products'' = Inr (VList (map VDict qs))" by simp
  have pgn: "py_item ?body ''pagination'' =
             Inr (VDict [(''currentPage'', VInt p),
                         (''totalPages'', VInt \<lceil>real_of_int N / real_of_int L\<rceil>),
                         (''totalItems'', VInt N),
                         (''itemsPerPage'', VInt L),
                         (''hasNext'', VBool (p < \<lceil>real_of_int N / real_of_int L\<rceil>)),
                         (''hasPrev'', VBool (p > 1))])" by simp
  have "int (length (map VDict qs)) = min L (max 0 (N - (p - 1) * L))"
    using lc by (simp add: k_def)
  with r g i pgn show ?thesis by blast
qed


theorem product_listing_page_witness:
  "int_arg demo_lib demo_listing ''page'' 1 = Inr 2
   \<and> int_arg demo_lib demo_listing ''limit'' 10 = Inr 5
   \<and> int (length (matching_products demo_lib demo_listing demo_shop)) = 12
   \<and> list_all presentable (products_collection demo_shop)
   \<and> (\<exists>items body.
         get_products_try demo_lib demo_env demo_shop demo_listing = Inr (Response body 200, demo_shop)
       \<and> py_item body ''products'' = Inr (VList items)
       \<and> int (length items) = 5
       \<and> py_item body ''pagination'' =
             Inr (VDict [(''currentPage'', VInt 2), (''totalPages'', VInt 3),
                         (''totalItems'', VInt 12), (''itemsPerPage'', VInt 5),
                         (''hasNext'', VBool True), (''hasPrev'', VBool True)]))"
proof -
  have p: "int_arg demo_lib demo_listing ''page'' 1 = Inr 2" by code_simp
  have l: "int_arg demo_lib demo_listing ''limit'' 10 = Inr 5" by code_simp
  have n: "12 = int (length (matching_products demo_lib demo_listing demo_shop))" by code_simp
  have ok: "list_all presentable (products_collection demo_shop)" by code_simp
  have srt: "\<forall>c xs. length (cursor_sort demo_lib c xs) = length xs
                  \<and> set (cursor_sort demo_lib c xs) = set xs"
    by (simp add: demo_lib_def)
  have c: "\<lceil>real_of_int 12 / real_of_int 5\<rceil> = (3::int)" by simp
  from product_listing_page [OF p _ l _ _ srt ok n, of demo_env]
  have "\<exists>items body.
         get_products_try demo_lib demo_env demo_shop demo_listing = Inr (Response body 200, demo_shop)
       \<and> py_item body ''products'' = Inr (VList items)
       \<and> int (length items) = 5
       \<and> py_item body ''pagination'' =
             Inr (VDict [(''currentPage'', VInt 2), (''totalPages'', VInt 3),
                         (''totalItems'', VInt 12), (''itemsPerPage'', VInt 5),
                         (''hasNext'', VBool True), (''hasPrev'', VBool True)])"
    unfolding c by simp blast
  with p l n ok show ?thesis by simp
qed

text \<open>
  C5. The claim is that every product that reaches the store has a price greater than
  zero. Product creation tests \<open>price <= 0\<close>, which is false of NaN: with a library whose
  \<open>float('nan')\<close> is NaN, as Python's is, the body
  \<open>{"title": ..., "description": ..., "price": "nan"}\<close> passes validation and the
  product is inserted with the price NaN, which is not greater than zero. The update
  route has the same test and sets the same price.
\<close>

theorem nan_price_persisted:
  assumes "float_of_str l ''nan'' = Some NaN"
      and "get_json req = Inr (VDict [(''title'', VStr t), (''description'', VStr ds), (''price'', VStr ''nan'')])"
      and "t \<noteq> []" and "ds \<noteq> []"
      and "py_item current_user ''_id'' = Inr uid"
      and "\<not> list_ex (\<lambda>old. map_of old ''_id'' = Some (VObjectId (new_object_id e))) (products_collection d)"
  shows "(\<exists>body d'. create_product_try l e d req current_user = Inr (Response body 201, d')
         \<and> products_collection d' = products_collection d @ [last (products_collection d')]
         \<and> map_of (last (products_collection d')) ''price'' = Some (VFloat NaN))
       \<and> update_data_of l e (VDict [(''price'', VStr ''nan'')])
           = Inr (Inr [(''price'', VFloat NaN), (''updatedAt'', VDatetime (utcnow e))])
       \<and> \<not> float_gt_zero NaN"
  using assms
  by (simp add: create_product_try_def update_data_of_def bind_exn_simps insert_one_def Let_def
        map_of_dict_set dict_set_def)

theorem nan_price_persisted_witness:
  "float_of_str demo_lib ''nan'' = Some NaN
   \<and> py_item (VDict demo_user) ''_id'' = Inr (VObjectId ''64b0c0ffee64b0c0ffee0001'')
   \<and> (\<exists>body d'. create_product_try demo_lib demo_env demo_db (body_request nan_product) (VDict demo_user)
           = Inr (Response body 201, d')
         \<and> products_collection d' = products_collection demo_db @ [last (products_collection d')]
         \<and> map_of (last (products_collection d')) ''price'' = Some (VFloat NaN))
   \<and> snd (create_product demo_lib demo_env (Some demo_db)
             ((body_request nan_product)\<lparr>authorization := Some ''Bearer tok1''\<rparr>))
       = Some (demo_db\<lparr>products_collection :=
            [[(''id'', VStr ''0b5e1f0e-0000-4000-8000-000000000001''),
              (''title'', VStr ''Tea''), (''description'', VStr ''Green''),
              (''price'', VFloat NaN),
              (''image'', VStr ''https://via.placeholder.com/300x200''),
              (''createdBy'', VStr ''64b0c0ffee64b0c0ffee0001''),
              (''createdAt'', VDatetime 1000),
              (''_id'', VObjectId ''64b0c0ffee64b0c0ffee0001'')]]\<rparr>)"
proof -
  have f: "float_of_str demo_lib ''nan'' = Some NaN" by (simp add: demo_lib_def)
  have g: "get_json (body_request nan_product)
      = Inr (VDict [(''title'', VStr ''Tea''), (''description'', VStr ''Green''), (''price'', VStr ''nan'')])"
    by (simp add: body_request_def nan_product_def)
  have i: "py_item (VDict demo_user) ''_id'' = Inr (VObjectId ''64b0c0ffee64b0c0ffee0001'')"
    by (simp add: demo_user_def)
  have n: "\<not> list_ex (\<lambda>old. map_of old ''_id'' = Some (VObjectId (new_object_id demo_env)))
             (products_collection demo_db)"
    by (simp add: demo_db_def)
  have c: "snd (create_product demo_lib demo_env (Some demo_db)
             ((body_request nan_product)\<lparr>authorization := Some ''Bearer tok1''\<rparr>))
       = Some (demo_db\<lparr>products_collection :=
            [[(''id'', VStr ''0b5e1f0e-0000-4000-8000-000000000001''),
              (''title'', VStr ''Tea''), (''description'', VStr ''Green''),
              (''price'', VFloat NaN),
              (''image'', VStr ''https://via.placeholder.com/300x200''),
              (''createdBy'', VStr ''64b0c0ffee64b0c0ffee0001''),
              (''createdAt'', VDatetime 1000),
              (''_id'', VObjectId ''64b0c0ffee64b0c0ffee0001'')]]\<rparr>)"
    by code_simp
  from nan_price_persisted [OF f g _ _ i n] f i c show ?thesis by simp
qed

end
